theory Spec2Isabelle
  imports Complex_Main
begin

section \<open>Data model (outageSchema, server.js lines 24-42)\<close>

text \<open>
  The schema's two closed string enums are datatypes; \<open>service\<close> stays a string,
  because the request supplies it and the schema's enum validator is what rejects a
  value outside the four services. Dates are milliseconds since the epoch, \<open>null\<close> is
  \<open>None\<close>. \<open>oid\<close> is the document's \<open>_id\<close>, an ObjectId, written as its 24
  hexadecimal digits in lower case. \<open>confirmCount\<close> is an integer; \<open>durationMinutes\<close>
  is a double, written as the rational number it is equal to.
\<close>

datatype outage_status = ongoing | resolved

datatype confidence = unverified | likely | confirmed

record outage =
  oid :: string
  service :: string
  area :: string
  downTime :: int
  upTime :: "int option"
  durationMinutes :: "rat option"
  status :: outage_status
  confirmCount :: int
  confidenceLevel :: confidence
  createdAt :: int

definition serviceEnum :: "string list" where
  "serviceEnum = [''Electricity'', ''Water'', ''Internet'', ''Transport'']"

text \<open>
  The collection in its natural order: documents are appended on insert and keep
  their place on update. Every handler takes the collection and returns the new one.
\<close>

type_synonym store = "outage list"

subsection \<open>Responses\<close>

record stats =
  totalDowntimeMinutes :: rat
  averageDowntimeMinutes :: rat
  serviceWiseDowntime :: "(string \<times> rat) list"
  reliabilityScores :: "(string \<times> rat) list"

record insights =
  peakOutageHour :: nat
  worstDayOfWeek :: nat
  recurringAreas :: "(string \<times> nat) list"

datatype json =
    JEmpty
  | JMessage string
  | JOutage outage
  | JMessageOutage string outage
  | JStats stats
  | JInsights insights

record response =
  statusCode :: nat
  body :: json

definition reply :: "nat \<Rightarrow> json \<Rightarrow> response" where
  "reply c b = \<lparr>statusCode = c, body = b\<rparr>"

text \<open>The central error handler: whatever a handler throws is answered with 500.\<close>

definition serverError :: response where
  "serverError = reply 500 (JMessage ''Server error'')"

section \<open>Helper functions (lines 47-53)\<close>

definition getConfidenceLevel :: "int \<Rightarrow> confidence" where
  "getConfidenceLevel count =
     (if count \<ge> 3 then confirmed else if count = 2 then likely else unverified)"

section \<open>JavaScript Numbers\<close>

text \<open>
  The handlers compute durations and statistics on Numbers, IEEE 754 doubles. A
  finite double is a rational \<open>m * 2^q\<close> with \<open>|m| < 2^53\<close> and \<open>q \<ge> -1074\<close>, and every
  operation returns the double nearest to the exact result, a tie going to the even
  \<open>m\<close>. \<open>exponent x\<close> is the \<open>e\<close> with \<open>2^e \<le> |x| < 2^(e+1)\<close>, counted by halving or
  doubling, and \<open>toDouble\<close> rounds at \<open>q = max (e - 52) (-1074)\<close>. Infinity and NaN are
  not modelled: no value of the handlers comes near \<open>2^1024\<close>.
\<close>

definition roundHalfEven :: "rat \<Rightarrow> int" where
  "roundHalfEven x =
     (let n = \<lfloor>x\<rfloor>; r = x - of_int n
      in if r < 1 / 2 then n else if 1 / 2 < r then n + 1 else if even n then n else n + 1)"

function halvings :: "rat \<Rightarrow> int" where
  "halvings x = (if 2 \<le> x then halvings (x / 2) + 1 else 0)"
  by pat_completeness auto
termination
proof (relation "measure (\<lambda>x. nat \<lfloor>x\<rfloor>)")
  show "wf (measure (\<lambda>x::rat. nat \<lfloor>x\<rfloor>))" by simp
next
  fix x :: rat
  assume "2 \<le> x"
  then have "x / 2 \<le> x - 1" by simp
  then have "\<lfloor>x / 2\<rfloor> \<le> \<lfloor>x - 1\<rfloor>" by (rule floor_mono)
  moreover have "\<lfloor>x - 1\<rfloor> = \<lfloor>x\<rfloor> - 1" by simp
  moreover from \<open>2 \<le> x\<close> have "2 \<le> \<lfloor>x\<rfloor>" by (simp add: le_floor_iff)
  ultimately show "(x / 2, x) \<in> measure (\<lambda>x. nat \<lfloor>x\<rfloor>)" by simp
qed

function doublings :: "rat \<Rightarrow> int" where
  "doublings x = (if 0 < x \<and> x < 1 then doublings (x * 2) - 1 else 0)"
  by pat_completeness auto
termination
proof (relation "measure (\<lambda>x. nat \<lfloor>1 / x\<rfloor>)")
  show "wf (measure (\<lambda>x::rat. nat \<lfloor>1 / x\<rfloor>))" by simp
next
  fix x :: rat
  assume a: "0 < x \<and> x < 1"
  then have one: "1 \<le> 1 / x" by (simp add: field_simps)
  have f1: "1 \<le> \<lfloor>1 / x\<rfloor>" using one by (simp add: le_floor_iff)
  have "1 / (x * 2) = (1 / x) / 2" by simp
  also have "\<dots> < of_int (\<lfloor>1 / x\<rfloor> + 1) / 2"
    using floor_correct[of "1 / x"] by (simp add: divide_strict_right_mono)
  finally have "1 / (x * 2) < of_int (\<lfloor>1 / x\<rfloor> + 1) / 2" .
  also have "\<dots> \<le> of_int \<lfloor>1 / x\<rfloor>" using f1 by (simp add: field_simps)
  finally have "\<lfloor>1 / (x * 2)\<rfloor> < \<lfloor>1 / x\<rfloor>" by (simp add: floor_less_iff)
  with f1 show "(x * 2, x) \<in> measure (\<lambda>x. nat \<lfloor>1 / x\<rfloor>)" by simp
qed

definition exponent :: "rat \<Rightarrow> int" where
  "exponent x = (if 1 \<le> \<bar>x\<bar> then halvings \<bar>x\<bar> else doublings \<bar>x\<bar>)"

definition toDouble :: "rat \<Rightarrow> rat" where
  "toDouble x =
     (if x = 0 then 0
      else (let q = max (exponent x - 52) (- 1074)
            in of_int (roundHalfEven (x / 2 powi q)) * 2 powi q))"

text \<open>The operators \<open>+\<close>, \<open>-\<close>, \<open>*\<close> and \<open>/\<close> on two Numbers.\<close>

definition jsAdd :: "rat \<Rightarrow> rat \<Rightarrow> rat" where
  "jsAdd a b = toDouble (a + b)"

definition jsSub :: "rat \<Rightarrow> rat \<Rightarrow> rat" where
  "jsSub a b = toDouble (a - b)"

definition jsMul :: "rat \<Rightarrow> rat \<Rightarrow> rat" where
  "jsMul a b = toDouble (a * b)"

definition jsDiv :: "rat \<Rightarrow> rat \<Rightarrow> rat" where
  "jsDiv a b = toDouble (a / b)"

section \<open>The collection's operations\<close>

text \<open>\<open>Outage.findOne({service, area, status: "ongoing"})\<close>: the first match.\<close>

definition findOngoing :: "string \<Rightarrow> string \<Rightarrow> store \<Rightarrow> outage option" where
  "findOngoing svc ar st =
     find (\<lambda>d. service d = svc \<and> area d = ar \<and> status d = ongoing) st"

text \<open>
  \<open>Outage.findById(id)\<close> casts the string of the URL to an ObjectId and finds the
  document with that \<open>_id\<close>. \<open>castObjectId\<close> is the library's cast, a parameter: it
  gives the ObjectId an accepted string denotes, written as stored identifiers are
  (hexadecimal digits denote the same ObjectId in either case). The handlers reach
  it only with a string \<open>isValidObjectId\<close> accepted, where the cast succeeds.
\<close>

definition findById :: "(string \<Rightarrow> string) \<Rightarrow> string \<Rightarrow> store \<Rightarrow> outage option" where
  "findById castObjectId i st = find (\<lambda>d. oid d = castObjectId i) st"

text \<open>\<open>doc.save()\<close> writes the document back over the stored one with its \<open>_id\<close>.\<close>

fun save :: "outage \<Rightarrow> store \<Rightarrow> store" where
  "save d [] = []"
| "save d (x # xs) = (if oid x = oid d then d # xs else x # save d xs)"

fun findByIdAndDelete :: "(string \<Rightarrow> string) \<Rightarrow> string \<Rightarrow> store \<Rightarrow> store" where
  "findByIdAndDelete castObjectId i [] = []"
| "findByIdAndDelete castObjectId i (x # xs) =
     (if oid x = castObjectId i then xs else x # findByIdAndDelete castObjectId i xs)"

datatype store_error = ValidationError | DuplicateKey

text \<open>
  \<open>Outage.create\<close> with the five fields the handler passes; the schema supplies the
  defaults of the others and validates: \<open>service\<close> within its enum, \<open>area\<close> present,
  \<open>downTime\<close> a valid date (\<open>None\<close> is JavaScript's Invalid Date). The \<open>_id\<close> comes from
  the driver, and the collection's unique index on it refuses a second document
  with the same one.
\<close>

definition create ::
  "int \<Rightarrow> string \<Rightarrow> string \<Rightarrow> string \<Rightarrow> int option \<Rightarrow> int \<Rightarrow> confidence \<Rightarrow> store
    \<Rightarrow> store_error + outage" where
  "create now newId svc ar dt cc cl st =
     (case dt of
        None \<Rightarrow> Inl ValidationError
      | Some t \<Rightarrow>
          if svc \<notin> set serviceEnum \<or> ar = [] then Inl ValidationError
          else if newId \<in> set (map oid st) then Inl DuplicateKey
          else Inr \<lparr>oid = newId, service = svc, area = ar, downTime = t, upTime = None,
                    durationMinutes = None, status = ongoing, confirmCount = cc,
                    confidenceLevel = cl, createdAt = now\<rparr>)"

section \<open>Report service downtime (POST /api/outages, lines 58-94)\<close>

text \<open>
  The three body fields are strings or absent; \<open>!x\<close> holds of an absent field and of
  the empty string. \<open>parseDate\<close> is \<open>new Date(downTime)\<close>, \<open>now\<close> the clock and
  \<open>newId\<close> the identifier the driver generates.
\<close>

fun ReportOutage ::
  "(string \<Rightarrow> int option) \<Rightarrow> int \<Rightarrow> string
    \<Rightarrow> string option \<Rightarrow> string option \<Rightarrow> string option \<Rightarrow> store \<Rightarrow> response \<times> store" where
  "ReportOutage parseDate now newId (Some svc) (Some ar) (Some dt) st =
     (if svc = [] \<or> ar = [] \<or> dt = []
      then (reply 400 (JMessage ''Missing required fields''), st)
      else
        (case findOngoing svc ar st of
           Some existing \<Rightarrow>
             (let e1 = existing\<lparr>confirmCount := confirmCount existing + 1\<rparr>;
                  e2 = e1\<lparr>confidenceLevel := getConfidenceLevel (confirmCount e1)\<rparr>
              in (reply 200 (JMessageOutage ''Confirmation added'' e2), save e2 st))
         | None \<Rightarrow>
             (case create now newId svc ar (parseDate dt) 1 unverified st of
                Inl err \<Rightarrow> (serverError, st)
              | Inr d \<Rightarrow> (reply 201 (JOutage d), st @ [d]))))"
| "ReportOutage parseDate now newId svc ar dt st =
     (reply 400 (JMessage ''Missing required fields''), st)"

section \<open>Restore service (PUT /api/outages/:id/restore, lines 107-128)\<close>

text \<open>
  \<open>isValidObjectId\<close> is the library's \<open>ObjectId.isValid\<close>, taken as a parameter, as
  is the cast of an accepted string to an ObjectId. Subtracting two dates subtracts
  their millisecond values as Numbers, and \<open>null\<close> counts as 0.
\<close>

definition dateValue :: "int option \<Rightarrow> int" where
  "dateValue v = (case v of None \<Rightarrow> 0 | Some t \<Rightarrow> t)"

definition RestoreOutage ::
  "(string \<Rightarrow> bool) \<Rightarrow> (string \<Rightarrow> string) \<Rightarrow> int \<Rightarrow> string \<Rightarrow> store
    \<Rightarrow> response \<times> store" where
  "RestoreOutage isValidObjectId castObjectId now i st =
     (if \<not> isValidObjectId i then (reply 400 (JMessage ''Invalid ID''), st)
      else
        (case findById castObjectId i st of
           None \<Rightarrow> (reply 404 (JMessage ''Not found''), st)
         | Some d \<Rightarrow>
             if status d = resolved then (reply 400 (JMessage ''Already resolved''), st)
             else
               (let d1 = d\<lparr>upTime := Some now\<rparr>;
                    d2 = d1\<lparr>durationMinutes :=
                            Some (jsDiv (jsSub (of_int (dateValue (upTime d1)))
                                               (of_int (downTime d1))) 60000)\<rparr>;
                    d3 = d2\<lparr>status := resolved\<rparr>
                in (reply 200 (JOutage d3), save d3 st))))"

section \<open>Admin delete (DELETE /api/outages/:id, lines 227-242)\<close>

text \<open>
  The header and the environment variable are each a string or \<open>undefined\<close>
  (\<open>None\<close>); \<open>!==\<close> on them is inequality of the two optional strings.
\<close>

definition DeleteOutage ::
  "string option \<Rightarrow> (string \<Rightarrow> bool) \<Rightarrow> (string \<Rightarrow> string) \<Rightarrow> string option \<Rightarrow> string
    \<Rightarrow> store \<Rightarrow> response \<times> store" where
  "DeleteOutage ADMIN_PASSWORD isValidObjectId castObjectId header i st =
     (if header \<noteq> ADMIN_PASSWORD then (reply 403 (JMessage ''Forbidden''), st)
      else if \<not> isValidObjectId i then (reply 400 (JMessage ''Invalid ID''), st)
      else (reply 200 (JMessage ''Deleted''), findByIdAndDelete castObjectId i st))"

section \<open>JavaScript objects used as dictionaries\<close>

text \<open>
  An object is a list of key-value pairs in the order \<open>Object.keys\<close> and \<open>for-in\<close>
  enumerate them: keys that are integers come in ascending order, other keys in the
  order they were first assigned. \<open>setIndex\<close> is the assignment \<open>obj[k] = v\<close> for
  an integer key, \<open>setKey\<close> for a string key that neither spells an integer nor
  names a property every object inherits; the service names are such keys, and so
  are the areas of the examples. \<open>orZero\<close> is \<open>obj[k] || 0\<close>, and
  \<open>toNumber\<close> the value a nullable Number has in an addition.
\<close>

fun setIndex :: "nat \<Rightarrow> 'v \<Rightarrow> (nat \<times> 'v) list \<Rightarrow> (nat \<times> 'v) list" where
  "setIndex k v [] = [(k, v)]"
| "setIndex k v ((a, b) # ps) =
     (if k < a then (k, v) # (a, b) # ps
      else if k = a then (a, v) # ps
      else (a, b) # setIndex k v ps)"

fun setKey :: "string \<Rightarrow> 'v \<Rightarrow> (string \<times> 'v) list \<Rightarrow> (string \<times> 'v) list" where
  "setKey k v [] = [(k, v)]"
| "setKey k v ((a, b) # ps) = (if k = a then (a, v) # ps else (a, b) # setKey k v ps)"

definition orZero :: "'v::zero option \<Rightarrow> 'v" where
  "orZero x = (case x of None \<Rightarrow> 0 | Some v \<Rightarrow> if v = 0 then 0 else v)"

definition toNumber :: "rat option \<Rightarrow> rat" where
  "toNumber x = (case x of None \<Rightarrow> 0 | Some v \<Rightarrow> v)"

text \<open>
  \<open>Object.keys(obj).reduce((a, b) => obj[a] > obj[b] ? a : b)\<close>. Without an initial
  value \<open>reduce\<close> starts from the first key and throws on an empty array (\<open>None\<close>);
  a comparison with \<open>undefined\<close> is false.
\<close>

definition numGreater :: "nat option \<Rightarrow> nat option \<Rightarrow> bool" where
  "numGreater x y = (case (x, y) of (Some m, Some n) \<Rightarrow> m > n | _ \<Rightarrow> False)"

fun reduce :: "('a \<Rightarrow> 'a \<Rightarrow> 'a) \<Rightarrow> 'a list \<Rightarrow> 'a option" where
  "reduce f [] = None"
| "reduce f (x # xs) = Some (foldl f x xs)"

definition maxKey :: "('k \<times> nat) list \<Rightarrow> 'k option" where
  "maxKey obj =
     reduce (\<lambda>a b. if numGreater (map_of obj a) (map_of obj b) then a else b) (map fst obj)"

section \<open>Downtime analytics (GET /api/outages/stats, lines 131-162)\<close>

definition statsStep ::
  "rat \<times> (string \<times> rat) list \<Rightarrow> outage \<Rightarrow> rat \<times> (string \<times> rat) list" where
  "statsStep acc d =
     (case acc of (totalMinutes, serviceTotals) \<Rightarrow>
        (jsAdd totalMinutes (toNumber (durationMinutes d)),
         setKey (service d)
           (jsAdd (orZero (map_of serviceTotals (service d))) (toNumber (durationMinutes d)))
           serviceTotals))"

text \<open>
  The body of the \<open>for-in\<close> loop. The loop yields only keys the object has, so the
  lookup finds a total; the other branch is never taken.
\<close>

definition reliabilityStep ::
  "(string \<times> rat) list \<Rightarrow> (string \<times> rat) list \<Rightarrow> string \<Rightarrow> (string \<times> rat) list" where
  "reliabilityStep serviceTotals reliability svc =
     (case map_of serviceTotals svc of
        None \<Rightarrow> reliability
      | Some minutes \<Rightarrow>
          (let hours = jsDiv minutes 60
           in setKey svc (max 0 (jsSub 100 (jsMul hours 2))) reliability))"

definition ComputeStats :: "store \<Rightarrow> response" where
  "ComputeStats st =
     (let outages = filter (\<lambda>d. status d = resolved) st
      in if length outages = 0 then reply 200 JEmpty
         else
           (case foldl statsStep (0, []) outages of (totalMinutes, serviceTotals) \<Rightarrow>
              (let avg = jsDiv totalMinutes (of_nat (length outages));
                   reliability =
                     foldl (reliabilityStep serviceTotals) [] (map fst serviceTotals)
               in reply 200 (JStats \<lparr>totalDowntimeMinutes = totalMinutes,
                                       averageDowntimeMinutes = avg,
                                       serviceWiseDowntime = serviceTotals,
                                       reliabilityScores = reliability\<rparr>))))"

section \<open>Time-based intelligence (GET /api/outages/insights, lines 165-193)\<close>

text \<open>
  \<open>getHours\<close> and \<open>getDay\<close> are the Date methods, which read a timestamp in the
  server's time zone; they are parameters. The keys of \<open>hourMap\<close> and \<open>dayMap\<close> are
  those numbers, so both objects enumerate in ascending order; the key \<open>maxKey\<close>
  returns, a property name in the response, is written as the number it spells.
\<close>

definition insightsStep ::
  "(int \<Rightarrow> nat) \<Rightarrow> (int \<Rightarrow> nat)
    \<Rightarrow> (nat \<times> nat) list \<times> (nat \<times> nat) list \<times> (string \<times> nat) list \<Rightarrow> outage
    \<Rightarrow> (nat \<times> nat) list \<times> (nat \<times> nat) list \<times> (string \<times> nat) list" where
  "insightsStep getHours getDay acc d =
     (case acc of (hourMap, dayMap, areaMap) \<Rightarrow>
        (let hour = getHours (downTime d);
             day = getDay (downTime d)
         in (setIndex hour (orZero (map_of hourMap hour) + 1) hourMap,
             setIndex day (orZero (map_of dayMap day) + 1) dayMap,
             setKey (area d) (orZero (map_of areaMap (area d)) + 1) areaMap)))"

definition ComputeInsights :: "(int \<Rightarrow> nat) \<Rightarrow> (int \<Rightarrow> nat) \<Rightarrow> store \<Rightarrow> response" where
  "ComputeInsights getHours getDay st =
     (let outages = st
      in if length outages = 0 then reply 200 JEmpty
         else
           (case foldl (insightsStep getHours getDay) ([], [], []) outages of
              (hourMap, dayMap, areaMap) \<Rightarrow>
                (case (maxKey hourMap, maxKey dayMap) of
                   (Some h, Some w) \<Rightarrow>
                     reply 200 (JInsights \<lparr>peakOutageHour = h, worstDayOfWeek = w,
                                             recurringAreas = areaMap\<rparr>)
                 | _ \<Rightarrow> serverError)))"

section \<open>Sample data for the worked examples\<close>

text \<open>
  Instances of the environment's functions on the inputs the examples use: an
  identifier is taken as well-formed when it is 24 hexadecimal digits, the cast of
  such a string is its lower-case spelling, and \<open>sampleDate\<close> is \<open>new Date\<close> on two
  ISO strings. \<open>utcHours\<close> and \<open>utcDay\<close> are
  \<open>getHours\<close> and \<open>getDay\<close> on a server whose time zone is UTC.
\<close>

definition hexObjectId :: "string \<Rightarrow> bool" where
  "hexObjectId s =
     (length s = 24 \<and> list_all (\<lambda>c. c \<in> set ''0123456789abcdefABCDEF'') s)"

definition sampleDate :: "string \<Rightarrow> int option" where
  "sampleDate s =
     (if s = ''2023-11-14T22:13:20.000Z'' then Some 1700000000000
      else if s = ''2023-11-14T22:26:40.000Z'' then Some 1700000800000
      else None)"

definition lowerHex :: "string \<Rightarrow> string" where
  "lowerHex s =
     map (\<lambda>c. if c = CHR ''A'' then CHR ''a'' else if c = CHR ''B'' then CHR ''b''
              else if c = CHR ''C'' then CHR ''c'' else if c = CHR ''D'' then CHR ''d''
              else if c = CHR ''E'' then CHR ''e'' else if c = CHR ''F'' then CHR ''f''
              else c) s"

definition utcHours :: "int \<Rightarrow> nat" where
  "utcHours t = nat ((t div 3600000) mod 24)"

definition utcDay :: "int \<Rightarrow> nat" where
  "utcDay t = nat ((t div 86400000 + 4) mod 7)"

definition waterOutage :: outage where
  "waterOutage =
     \<lparr>oid = ''65a1b2c3d4e5f60718293a4b'', service = ''Water'', area = ''Sector 9'',
      downTime = 1700000000000, upTime = None, durationMinutes = None, status = ongoing,
      confirmCount = 1, confidenceLevel = unverified, createdAt = 1700000005000\<rparr>"

definition powerOutage :: outage where
  "powerOutage =
     \<lparr>oid = ''65a1b2c3d4e5f60718293a4c'', service = ''Electricity'', area = ''Sector 9'',
      downTime = 1700000600000, upTime = None, durationMinutes = None, status = ongoing,
      confirmCount = 2, confidenceLevel = likely, createdAt = 1700000605000\<rparr>"

definition powerRestored :: outage where
  "powerRestored =
     powerOutage\<lparr>upTime := Some 1700004200000, durationMinutes := Some 60,
       status := resolved\<rparr>"

text \<open>
  The durations of a list of outages, and those of one service, added up as Numbers
  in the order of the list.
\<close>

definition minutesTotal :: "outage list \<Rightarrow> rat" where
  "minutesTotal ds = foldl jsAdd 0 (map (\<lambda>d. toNumber (durationMinutes d)) ds)"

definition minutesOf :: "string \<Rightarrow> outage list \<Rightarrow> rat" where
  "minutesOf svc ds = minutesTotal (filter (\<lambda>d. service d = svc) ds)"

text \<open>Durations that are whole numbers of minutes, none negative.\<close>

definition wholeMinutes :: "outage list \<Rightarrow> bool" where
  "wholeMinutes ds =
     list_all (\<lambda>d. \<exists>n. 0 \<le> n \<and> toNumber (durationMinutes d) = of_int n) ds"

definition longOutage :: outage where
  "longOutage =
     \<lparr>oid = ''65a1b2c3d4e5f60718293a53'', service = ''Internet'', area = ''Sector 4'',
      downTime = 1700020000000, upTime = Some 1700026000000, durationMinutes = Some 100,
      status = resolved, confirmCount = 1, confidenceLevel = unverified,
      createdAt = 1700020005000\<rparr>"

definition waterFirst :: outage where
  "waterFirst =
     \<lparr>oid = ''65a1b2c3d4e5f60718293a51'', service = ''Water'', area = ''Sector 9'',
      downTime = 1700000000000, upTime = Some 1700003600000, durationMinutes = Some 60,
      status = resolved, confirmCount = 1, confidenceLevel = unverified,
      createdAt = 1700000005000\<rparr>"

definition waterSecond :: outage where
  "waterSecond =
     \<lparr>oid = ''65a1b2c3d4e5f60718293a52'', service = ''Water'', area = ''Sector 4'',
      downTime = 1700010000000, upTime = Some 1700017200000, durationMinutes = Some 120,
      status = resolved, confirmCount = 3, confidenceLevel = confirmed,
      createdAt = 1700010005000\<rparr>"

text \<open>The number of outages whose \<open>downTime\<close> falls in a given hour of the day.\<close>

definition hourCount :: "(int \<Rightarrow> nat) \<Rightarrow> outage list \<Rightarrow> nat \<Rightarrow> nat" where
  "hourCount getHours ds h = length (filter (\<lambda>d. getHours (downTime d) = h) ds)"

text \<open>
  The tie-break as the specification words it, for comparison with \<open>maxKey\<close>: the
  first key, in the object's enumeration order, whose count is the highest.
\<close>

definition firstMaxKey :: "('k \<times> nat) list \<Rightarrow> 'k option" where
  "firstMaxKey obj =
     map_option fst (find (\<lambda>p. snd p = fold max (map snd obj) 0) obj)"

definition dawnOutage :: outage where
  "dawnOutage =
     \<lparr>oid = ''65a1b2c3d4e5f60718293a61'', service = ''Internet'', area = ''Sector 2'',
      downTime = 1700017200000, upTime = None, durationMinutes = None, status = ongoing,
      confirmCount = 1, confidenceLevel = unverified, createdAt = 1700017205000\<rparr>"

definition morningOutage :: outage where
  "morningOutage =
     \<lparr>oid = ''65a1b2c3d4e5f60718293a62'', service = ''Transport'', area = ''Sector 7'',
      downTime = 1700024400000, upTime = None, durationMinutes = None, status = ongoing,
      confirmCount = 1, confidenceLevel = unverified, createdAt = 1700024405000\<rparr>"


section \<open>Facts about Numbers\<close>

lemma roundHalfEven_int [simp]: "roundHalfEven (of_int n) = n"
  by (simp add: roundHalfEven_def)

lemma roundHalfEven_error: "\<bar>of_int (roundHalfEven x) - x\<bar> \<le> 1 / 2"
proof -
  have "of_int \<lfloor>x\<rfloor> \<le> x" "x < of_int \<lfloor>x\<rfloor> + 1" by linarith+
  then show ?thesis by (auto simp: roundHalfEven_def Let_def)
qed

lemma halvings_bounds: "1 \<le> x \<Longrightarrow> 2 powi halvings x \<le> x \<and> x < 2 powi (halvings x + 1)"
proof (induction x rule: halvings.induct)
  case (1 x)
  show ?case
  proof (cases "2 \<le> x")
    case True
    then have "1 \<le> x / 2" by simp
    from "1.IH"[OF True this]
    have a: "2 powi halvings (x / 2) \<le> x / 2" and b: "x / 2 < 2 powi (halvings (x / 2) + 1)"
      by simp_all
    have h: "halvings x = halvings (x / 2) + 1" using True by (subst halvings.simps) simp
    have "2 powi (halvings (x / 2) + 1) = 2 powi halvings (x / 2) * (2::rat)"
      by (simp add: power_int_add)
    with a have lo: "2 powi halvings x \<le> x" unfolding h by simp
    have "2 powi (halvings (x / 2) + 1 + 1) = 2 powi (halvings (x / 2) + 1) * (2::rat)"
      by (simp add: power_int_add)
    with b have "x < 2 powi (halvings x + 1)" unfolding h by simp
    with lo show ?thesis by simp
  next
    case False
    then have "halvings x = 0" by (subst halvings.simps) simp
    with False "1.prems" show ?thesis by simp
  qed
qed

lemma doublings_bounds:
  "0 < x \<Longrightarrow> x < 1 \<Longrightarrow> 2 powi doublings x \<le> x \<and> x < 2 powi (doublings x + 1)"
proof (induction x rule: doublings.induct)
  case (1 x)
  from "1.prems" have c: "0 < x \<and> x < 1" by simp
  have h: "doublings x = doublings (x * 2) - 1" using c by (subst doublings.simps) simp
  show ?case
  proof (cases "x * 2 < 1")
    case True
    from "1.IH"[OF c _ True] c
    have a: "2 powi doublings (x * 2) \<le> x * 2" and b: "x * 2 < 2 powi (doublings (x * 2) + 1)"
      by simp_all
    have "2 powi doublings (x * 2) = 2 powi (doublings (x * 2) - 1) * (2::rat)"
      by (simp add: power_int_diff)
    with a have lo: "2 powi doublings x \<le> x" unfolding h by simp
    have "2 powi (doublings (x * 2) + 1) = 2 powi doublings (x * 2)  * (2::rat)"
      by (simp add: power_int_add)
    with b have "x < 2 powi (doublings x + 1)" unfolding h by simp
    with lo show ?thesis by simp
  next
    case False
    then have "doublings (x * 2) = 0" by (subst doublings.simps) simp
    with h have "doublings x = - 1" by simp
    with False c show ?thesis by (simp add: power_int_minus)
  qed
qed

lemma exponent_bounds:
  assumes "x \<noteq> 0"
  shows "2 powi exponent x \<le> \<bar>x\<bar>" and "\<bar>x\<bar> < 2 powi (exponent x + 1)"
  using assms halvings_bounds[of "\<bar>x\<bar>"] doublings_bounds[of "\<bar>x\<bar>"]
  by (auto simp: exponent_def)

lemma exponent_le:
  assumes "x \<noteq> 0" and "\<bar>x\<bar> \<le> 2 powi k"
  shows "exponent x \<le> k"
proof (rule ccontr)
  assume "\<not> exponent x \<le> k"
  then have "(2::rat) powi k < 2 powi exponent x"
    by (intro power_int_strict_increasing) simp_all
  with exponent_bounds(1)[OF assms(1)] assms(2) show False by simp
qed

lemma exponent_ge:
  assumes "x \<noteq> 0" and "2 powi k \<le> \<bar>x\<bar>"
  shows "k \<le> exponent x"
proof (rule ccontr)
  assume "\<not> k \<le> exponent x"
  then have "(2::rat) powi (exponent x + 1) \<le> 2 powi k"
    by (intro power_int_increasing) simp_all
  with exponent_bounds(2)[OF assms(1)] assms(2) show False by simp
qed

text \<open>Integers up to 2^53 in magnitude are doubles.\<close>

lemma toDouble_int:
  assumes "\<bar>n\<bar> \<le> 2 ^ 53"
  shows "toDouble (of_int n) = of_int n"
proof (cases "n = 0")
  case True
  then show ?thesis by (simp add: toDouble_def)
next
  case False
  let ?x = "of_int n :: rat"
  let ?e = "exponent ?x"
  from False have nz: "?x \<noteq> 0" by simp
  from False have "1 \<le> \<bar>n\<bar>" by simp
  then have "(1::rat) \<le> \<bar>?x\<bar>" by (metis of_int_1 of_int_abs of_int_le_iff)
  then have "2 powi 0 \<le> \<bar>?x\<bar>" by simp
  from exponent_ge[OF nz this] have e0: "0 \<le> ?e" .
  from assms have "\<bar>?x\<bar> \<le> 2 ^ 53"
    by (metis of_int_abs of_int_le_iff of_int_numeral of_int_power)
  then have "\<bar>?x\<bar> \<le> 2 powi 53" by simp
  from exponent_le[OF nz this] have e53: "?e \<le> 53" .
  have q: "max (?e - 52) (- 1074) = ?e - 52" using e0 by simp
  have "\<exists>m. ?x / 2 powi (?e - 52) = of_int m"
  proof (cases "?e \<le> 52")
    case True
    then have "?x / 2 powi (?e - 52) = ?x * 2 powi (52 - ?e)"
      by (simp add: power_int_diff field_simps)
    also have "\<dots> = ?x * 2 ^ nat (52 - ?e)" using True by (simp add: power_int_def)
    also have "\<dots> = of_int (n * 2 ^ nat (52 - ?e))" by simp
    finally show ?thesis by blast
  next
    case False
    with e53 have e: "?e = 53" by simp
    from exponent_bounds(1)[OF nz] e have "2 ^ 53 \<le> \<bar>?x\<bar>" by simp
    then have "2 ^ 53 \<le> \<bar>n\<bar>"
      by (metis of_int_abs of_int_le_iff of_int_numeral of_int_power)
    with assms have "\<bar>n\<bar> = 2 ^ 53" by simp
    then have "n = 2 ^ 53 \<or> n = - (2 ^ 53)" by (auto simp: abs_if split: if_splits)
    then have "n = 2 * (n div 2)" by auto
    then have "?x = 2 * of_int (n div 2)" by (metis of_int_mult of_int_numeral)
    then have "?x / 2 powi (?e - 52) = of_int (n div 2)" using e by simp
    then show ?thesis by blast
  qed
  then obtain m where m: "?x / 2 powi (?e - 52) = of_int m" by blast
  then have "of_int m * 2 powi (?e - 52) = ?x" by (simp add: field_simps)
  with m nz q show ?thesis by (simp add: toDouble_def Let_def)
qed

text \<open>In the normal range rounding moves a value by at most half a unit in the last place.\<close>

lemma toDouble_error:
  assumes "2 powi (- 1022) \<le> \<bar>x\<bar>"
  shows "\<bar>toDouble x - x\<bar> * 2 ^ 53 \<le> \<bar>x\<bar>"
proof -
  have pos: "(0::rat) < 2 powi (- 1022)" by simp
  with assms have nz: "x \<noteq> 0" by auto
  let ?e = "exponent x"
  from exponent_ge[OF nz assms] have "- 1022 \<le> ?e" .
  then have q: "max (?e - 52) (- 1074) = ?e - 52" by simp
  let ?p = "(2::rat) powi (?e - 52)"
  have pp: "0 < ?p" by simp
  have t: "toDouble x = of_int (roundHalfEven (x / ?p)) * ?p"
    using nz q by (simp add: toDouble_def Let_def)
  have "toDouble x - x = (of_int (roundHalfEven (x / ?p)) - x / ?p) * ?p"
    unfolding t using pp by (simp add: field_simps)
  then have "\<bar>toDouble x - x\<bar> = \<bar>of_int (roundHalfEven (x / ?p)) - x / ?p\<bar> * ?p"
    using pp by (simp add: abs_mult)
  also have "\<dots> \<le> (1 / 2) * ?p"
    using roundHalfEven_error[of "x / ?p"] pp by (intro mult_right_mono) simp_all
  finally have "\<bar>toDouble x - x\<bar> * 2 ^ 53 \<le> (1 / 2) * ?p * 2 ^ 53" by simp
  also have "(1 / 2) * ?p * 2 ^ 53 = 2 powi ?e"
    by (simp add: power_int_diff)
  also have "\<dots> \<le> \<bar>x\<bar>" by (rule exponent_bounds(1)[OF nz])
  finally show ?thesis .
qed


section \<open>Facts about the collection\<close>

lemma findById_oid: "findById c i st = Some e \<Longrightarrow> oid e = c i"
  by (auto simp: findById_def find_Some_iff)

lemma findById_save:
  "findById c i st = Some e \<Longrightarrow> oid d = c i \<Longrightarrow> findById c i (save d st) = Some d"
  by (induction st) (auto simp: findById_def split: if_splits)

lemma save_ids: "map oid (save d st) = map oid st"
  by (induction st) auto

text \<open>
  With identifiers unique, the document a query returned is the one its \<open>save\<close>
  overwrites, and every other document keeps its place and its content.
\<close>

lemma save_found:
  "distinct (map oid st) \<Longrightarrow> find P st = Some e \<Longrightarrow> oid e' = oid e \<Longrightarrow>
     \<exists>i < length st. st ! i = e \<and> save e' st = st[i := e']"
proof (induction st)
  case Nil
  then show ?case by simp
next
  case (Cons x xs)
  show ?case
  proof (cases "P x")
    case True
    with Cons.prems have "x = e" by simp
    with Cons.prems show ?thesis by (intro exI[of _ 0]) simp
  next
    case False
    with Cons.prems have f: "find P xs = Some e" and d: "distinct (map oid xs)" by auto
    from f have "e \<in> set xs" by (auto simp: find_Some_iff)
    with Cons.prems have ne: "oid x \<noteq> oid e'" by auto
    from Cons.IH[OF d f Cons.prems(3)] obtain i where
      "i < length xs" "xs ! i = e" "save e' xs = xs[i := e']" by blast
    with ne show ?thesis by (intro exI[of _ "Suc i"]) simp
  qed
qed

text \<open>
  What the two queries find, in terms of the collection: the first document that
  matches, if one does.
\<close>

lemma find_first:
  "find P st = Some e \<longleftrightarrow>
     (\<exists>i < length st. st ! i = e \<and> P e \<and> (\<forall>j < i. \<not> P (st ! j)))"
  by (auto simp: find_Some_iff)

lemma findOngoing_None:
  "findOngoing svc ar st = None \<longleftrightarrow>
     (\<forall>d \<in> set st. \<not> (service d = svc \<and> area d = ar \<and> status d = ongoing))"
  by (auto simp: findOngoing_def find_None_iff)

lemma findOngoing_Some:
  assumes "d \<in> set st" and "service d = svc" and "area d = ar" and "status d = ongoing"
  shows "\<exists>e. findOngoing svc ar st = Some e"
proof (cases "findOngoing svc ar st")
  case None
  with assms show ?thesis by (auto simp: findOngoing_None)
next
  case (Some e)
  then show ?thesis by blast
qed

lemma findById_distinct:
  assumes "distinct (map oid st)" and "e \<in> set st" and "oid e = c i"
  shows "findById c i st = Some e"
proof (cases "findById c i st")
  case None
  with assms show ?thesis by (auto simp: findById_def find_None_iff)
next
  case (Some x)
  then have "x \<in> set st" "oid x = c i"
    by (auto simp: findById_def find_Some_iff)
  with assms have "x = e" by (metis distinct_map inj_onD)
  with Some show ?thesis by simp
qed

lemma findById_None:
  "findById c i st = None \<longleftrightarrow> (\<forall>d \<in> set st. oid d \<noteq> c i)"
  by (auto simp: findById_def find_None_iff)

lemma delete_absent: "findById c i st = None \<Longrightarrow> findByIdAndDelete c i st = st"
  by (induction st) (auto simp: findById_def split: if_splits)

lemma delete_present:
  "findById c i st = Some e \<Longrightarrow> findByIdAndDelete c i st = remove1 e st"
proof (induction st)
  case Nil
  then show ?case by (simp add: findById_def)
next
  case (Cons x xs)
  from Cons.prems have "oid e = c i" by (rule findById_oid)
  with Cons show ?case by (auto simp: findById_def split: if_splits)
qed

text \<open>
  Every handler keeps the identifiers of the collection distinct, as the unique
  index on \<open>_id\<close> does.
\<close>

lemma delete_ids: "set (map oid (findByIdAndDelete c i st)) \<subseteq> set (map oid st)"
  by (induction st) auto

lemma delete_distinct:
  "distinct (map oid st) \<Longrightarrow> distinct (map oid (findByIdAndDelete c i st))"
proof (induction st)
  case Nil
  then show ?case by simp
next
  case (Cons x xs)
  with delete_ids[of c i xs] show ?case by auto
qed

lemma ReportOutage_distinct:
  "distinct (map oid st) \<Longrightarrow>
     distinct (map oid (snd (ReportOutage parseDate now newId svc ar dt st)))"
  by (cases svc; cases ar; cases dt)
     (auto simp: create_def save_ids Let_def split: option.splits sum.splits if_splits)

lemma RestoreOutage_distinct:
  "distinct (map oid st) \<Longrightarrow>
     distinct (map oid (snd (RestoreOutage isValidObjectId castObjectId now i st)))"
  by (auto simp: RestoreOutage_def save_ids Let_def split: option.splits)

lemma DeleteOutage_distinct:
  "distinct (map oid st) \<Longrightarrow>
     distinct (map oid (snd (DeleteOutage ADMIN_PASSWORD isValidObjectId castObjectId header i st)))"
  by (simp add: DeleteOutage_def delete_distinct)

section \<open>Reporting\<close>

lemma ReportOutage_existing:
  assumes "svc \<noteq> []" and "ar \<noteq> []" and "dt \<noteq> []" and "findOngoing svc ar st = Some e"
  shows "ReportOutage parseDate now newId (Some svc) (Some ar) (Some dt) st =
           (reply 200 (JMessageOutage ''Confirmation added''
              (e\<lparr>confirmCount := confirmCount e + 1,
                 confidenceLevel := getConfidenceLevel (confirmCount e + 1)\<rparr>)),
            save (e\<lparr>confirmCount := confirmCount e + 1,
                 confidenceLevel := getConfidenceLevel (confirmCount e + 1)\<rparr>) st)"
  using assms by (simp add: Let_def)

lemma ReportOutage_new:
  assumes "svc \<in> set serviceEnum" and "ar \<noteq> []" and "dt \<noteq> []" and "parseDate dt = Some t"
    and "findOngoing svc ar st = None" and "newId \<notin> set (map oid st)"
  shows "ReportOutage parseDate now newId (Some svc) (Some ar) (Some dt) st =
           (reply 201 (JOutage \<lparr>oid = newId, service = svc, area = ar, downTime = t,
              upTime = None, durationMinutes = None, status = ongoing, confirmCount = 1,
              confidenceLevel = unverified, createdAt = now\<rparr>),
            st @ [\<lparr>oid = newId, service = svc, area = ar, downTime = t,
              upTime = None, durationMinutes = None, status = ongoing, confirmCount = 1,
              confidenceLevel = unverified, createdAt = now\<rparr>])"
proof -
  from assms(1) have "svc \<noteq> []" by (auto simp: serviceEnum_def)
  with assms show ?thesis by (simp add: create_def)
qed

text \<open>
  Outside the schema the insert is refused and the handler answers 500: a service
  that is not one of the four, or a \<open>downTime\<close> that does not parse.
\<close>

lemma ReportOutage_rejected:
  assumes "svc \<noteq> []" and "ar \<noteq> []" and "dt \<noteq> []" and "findOngoing svc ar st = None"
    and "svc \<notin> set serviceEnum \<or> parseDate dt = None"
  shows "ReportOutage parseDate now newId (Some svc) (Some ar) (Some dt) st = (serverError, st)"
  using assms by (auto simp: create_def split: option.splits)

text \<open>
  C1. A report whose three fields are present, made while the collection holds an
  ongoing outage of its service and area, is answered 200 with the message
  "Confirmation added" (a created outage is answered 201). No document is added:
  the collection keeps its length and its other documents. The document confirmed
  is the first ongoing one of that service and area, the only one where the
  collection holds a single such outage; its \<open>confirmCount\<close> is one more than before,
  and its \<open>confidenceLevel\<close> is confirmed from 3 on, likely at 2, unverified
  otherwise.
\<close>

theorem report_confirms_existing:
  assumes "svc \<noteq> []" and "ar \<noteq> []" and "dt \<noteq> []"
    and "d \<in> set st" and "service d = svc" and "area d = ar" and "status d = ongoing"
    and "distinct (map oid st)"
  shows "\<exists>e' i. ReportOutage parseDate now newId (Some svc) (Some ar) (Some dt) st =
             (reply 200 (JMessageOutage ''Confirmation added'' e'), st[i := e'])
           \<and> i < length st
           \<and> service (st ! i) = svc \<and> area (st ! i) = ar \<and> status (st ! i) = ongoing
           \<and> (\<forall>j < i. \<not> (service (st ! j) = svc \<and> area (st ! j) = ar
                            \<and> status (st ! j) = ongoing))
           \<and> ((\<forall>x \<in> set st. service x = svc \<and> area x = ar \<and> status x = ongoing
                   \<longrightarrow> x = d) \<longrightarrow> st ! i = d)
           \<and> oid e' = oid (st ! i) \<and> service e' = svc \<and> area e' = ar \<and> status e' = ongoing
           \<and> confirmCount e' = confirmCount (st ! i) + 1
           \<and> confidenceLevel e' =
               (if confirmCount e' \<ge> 3 then confirmed
                else if confirmCount e' = 2 then likely else unverified)
           \<and> length (st[i := e']) = length st
           \<and> statusCode (fst (ReportOutage parseDate now newId (Some svc) (Some ar) (Some dt) st))
               \<noteq> 201"
proof -
  from findOngoing_Some[OF assms(4-7)] obtain e where e: "findOngoing svc ar st = Some e"
    by blast
  let ?e' = "e\<lparr>confirmCount := confirmCount e + 1,
                 confidenceLevel := getConfidenceLevel (confirmCount e + 1)\<rparr>"
  let ?P = "\<lambda>d. service d = svc \<and> area d = ar \<and> status d = ongoing"
  from e have f: "find ?P st = Some e" by (simp add: findOngoing_def)
  then obtain k where k: "k < length st" "st ! k = e" "?P e" "\<forall>j < k. \<not> ?P (st ! j)"
    unfolding find_first by blast
  from save_found[OF assms(8) f, of ?e'] obtain i where
    i: "i < length st" "st ! i = e" "save ?e' st = st[i := ?e']" by auto
  from assms(8) have "distinct st" by (simp add: distinct_map)
  with k(1,2) i(1,2) have ik: "i = k" by (metis nth_eq_iff_index_eq)
  have only: "(\<forall>x \<in> set st. ?P x \<longrightarrow> x = d) \<longrightarrow> st ! i = d"
    using i(1,2) k(3) by (metis nth_mem)
  show ?thesis
    apply (rule exI[of _ ?e'], rule exI[of _ i])
    using i k(3,4) ik only ReportOutage_existing[OF assms(1-3) e]
    by (simp add: getConfidenceLevel_def reply_def)
qed

theorem report_confirms_existing_witness:
  "\<exists>e' i. ReportOutage sampleDate 1700000900000 ''65a1b2c3d4e5f60718293a4d''
             (Some ''Water'') (Some ''Sector 9'') (Some ''2023-11-14T22:26:40.000Z'')
             [waterFirst, powerOutage, waterOutage] =
             (reply 200 (JMessageOutage ''Confirmation added'' e'),
              [waterFirst, powerOutage, waterOutage][i := e'])
           \<and> [waterFirst, powerOutage, waterOutage] ! i = waterOutage
           \<and> confirmCount e' = 2 \<and> confidenceLevel e' = likely"
proof -
  let ?st = "[waterFirst, powerOutage, waterOutage]"
  have n: "''Water'' \<noteq> []" "''Sector 9'' \<noteq> []" "''2023-11-14T22:26:40.000Z'' \<noteq> []"
    by simp_all
  have w: "waterOutage \<in> set ?st" "service waterOutage = ''Water''"
    "area waterOutage = ''Sector 9''" "status waterOutage = ongoing"
    by (simp_all add: waterOutage_def)
  have d: "distinct (map oid ?st)"
    by (simp add: waterFirst_def waterOutage_def powerOutage_def)
  have only: "\<forall>x \<in> set ?st.
      service x = ''Water'' \<and> area x = ''Sector 9'' \<and> status x = ongoing \<longrightarrow> x = waterOutage"
    by (simp add: waterFirst_def waterOutage_def powerOutage_def)
  have c: "confirmCount waterOutage = 1" by (simp add: waterOutage_def)
  from report_confirms_existing[where parseDate = sampleDate and now = 1700000900000
      and newId = "''65a1b2c3d4e5f60718293a4d''", OF n w d]
  obtain e' i where
    t: "ReportOutage sampleDate 1700000900000 ''65a1b2c3d4e5f60718293a4d''
             (Some ''Water'') (Some ''Sector 9'') (Some ''2023-11-14T22:26:40.000Z'') ?st =
             (reply 200 (JMessageOutage ''Confirmation added'' e'), ?st[i := e'])"
      "(\<forall>x \<in> set ?st. service x = ''Water'' \<and> area x = ''Sector 9'' \<and> status x = ongoing
               \<longrightarrow> x = waterOutage) \<longrightarrow> ?st ! i = waterOutage"
      "confirmCount e' = confirmCount (?st ! i) + 1"
      "confidenceLevel e' =
               (if confirmCount e' \<ge> 3 then confirmed
                else if confirmCount e' = 2 then likely else unverified)"
    by (elim exE conjE)
  from t(2) only have x: "?st ! i = waterOutage" by (rule mp)
  with t(3) c have "confirmCount e' = 2" by simp
  with t(1,4) x show ?thesis by (intro exI[of _ e'] exI[of _ i]) simp
qed

text \<open>
  C2. A report the schema accepts (a service of the enum, an area, a \<open>downTime\<close> that
  parses), made while the collection holds no ongoing outage of its service and
  area, is answered 201 with a new document, appended to the collection, whose
  \<open>confirmCount\<close> is 1, \<open>confidenceLevel\<close> unverified, \<open>status\<close> ongoing, and whose
  \<open>upTime\<close> and \<open>durationMinutes\<close> are null.
\<close>

theorem report_creates_new:
  assumes "svc \<in> set serviceEnum" and "ar \<noteq> []" and "dt \<noteq> []" and "parseDate dt = Some t"
    and "\<forall>d \<in> set st. \<not> (service d = svc \<and> area d = ar \<and> status d = ongoing)"
    and "newId \<notin> set (map oid st)"
  shows "\<exists>d. ReportOutage parseDate now newId (Some svc) (Some ar) (Some dt) st =
               (reply 201 (JOutage d), st @ [d])
           \<and> confirmCount d = 1 \<and> confidenceLevel d = unverified \<and> status d = ongoing
           \<and> upTime d = None \<and> durationMinutes d = None
           \<and> service d = svc \<and> area d = ar \<and> downTime d = t
           \<and> oid d = newId \<and> createdAt d = now"
proof -
  from assms(5) have "findOngoing svc ar st = None" by (simp add: findOngoing_None)
  from ReportOutage_new[where parseDate = parseDate and now = now,
      OF assms(1-4) this assms(6)]
  show ?thesis by simp
qed

theorem report_creates_new_witness:
  "\<exists>d. ReportOutage sampleDate 1700000900000 ''65a1b2c3d4e5f60718293a4d''
             (Some ''Water'') (Some ''Sector 4'') (Some ''2023-11-14T22:26:40.000Z'')
             [waterFirst, waterSecond, waterOutage] =
               (reply 201 (JOutage d), [waterFirst, waterSecond, waterOutage] @ [d])
           \<and> confirmCount d = 1 \<and> confidenceLevel d = unverified \<and> status d = ongoing
           \<and> upTime d = None \<and> durationMinutes d = None
           \<and> service d = ''Water'' \<and> area d = ''Sector 4''
           \<and> downTime d = 1700000800000
           \<and> oid d = ''65a1b2c3d4e5f60718293a4d'' \<and> createdAt d = 1700000900000"
  by (rule report_creates_new[where parseDate = sampleDate])
     (simp_all add: waterFirst_def waterSecond_def waterOutage_def serviceEnum_def
        sampleDate_def)

text \<open>
  C10. A confirmation changes \<open>confirmCount\<close> and \<open>confidenceLevel\<close> of the matched
  document and nothing else of it: identifier, service, area, \<open>downTime\<close>, \<open>upTime\<close>,
  \<open>durationMinutes\<close>, \<open>status\<close> and \<open>createdAt\<close> are as stored. The \<open>downTime\<close> the
  report carries is not used: any other present \<open>downTime\<close>, parsed by any parser,
  gives the same response and the same collection.
\<close>

theorem confirmation_frame:
  assumes "svc \<noteq> []" and "ar \<noteq> []" and "dt \<noteq> []"
    and "findOngoing svc ar st = Some e" and "distinct (map oid st)"
  shows "\<exists>e' i. ReportOutage parseDate now newId (Some svc) (Some ar) (Some dt) st =
             (reply 200 (JMessageOutage ''Confirmation added'' e'), st[i := e'])
           \<and> i < length st \<and> st ! i = e
           \<and> e' = e\<lparr>confirmCount := confirmCount e', confidenceLevel := confidenceLevel e'\<rparr>
           \<and> oid e' = oid e \<and> service e' = service e \<and> area e' = area e
           \<and> downTime e' = downTime e \<and> upTime e' = upTime e
           \<and> durationMinutes e' = durationMinutes e \<and> status e' = status e
           \<and> createdAt e' = createdAt e
           \<and> (\<forall>dt' parseDate'. dt' \<noteq> [] \<longrightarrow>
                ReportOutage parseDate' now newId (Some svc) (Some ar) (Some dt') st =
                ReportOutage parseDate now newId (Some svc) (Some ar) (Some dt) st)"
proof -
  let ?e' = "e\<lparr>confirmCount := confirmCount e + 1,
                 confidenceLevel := getConfidenceLevel (confirmCount e + 1)\<rparr>"
  from assms(4)
  have "find (\<lambda>d. service d = svc \<and> area d = ar \<and> status d = ongoing) st = Some e"
    by (simp add: findOngoing_def)
  from save_found[OF assms(5) this, of ?e'] obtain i where
    i: "i < length st" "st ! i = e" "save ?e' st = st[i := ?e']" by auto
  have indep: "\<forall>dt' parseDate'. dt' \<noteq> [] \<longrightarrow>
                ReportOutage parseDate' now newId (Some svc) (Some ar) (Some dt') st =
                ReportOutage parseDate now newId (Some svc) (Some ar) (Some dt) st"
    using assms(1,2,3,4) by (simp add: ReportOutage_existing)
  show ?thesis
    apply (rule exI[of _ ?e'], rule exI[of _ i])
    using i ReportOutage_existing[OF assms(1-4)] indep
    by simp
qed

theorem confirmation_frame_witness:
  "\<exists>e' i. ReportOutage sampleDate 1700000900000 ''65a1b2c3d4e5f60718293a4d''
       (Some ''Water'') (Some ''Sector 9'') (Some ''2023-11-14T22:26:40.000Z'')
       [waterOutage, powerOutage] =
       (reply 200 (JMessageOutage ''Confirmation added'' e'), [waterOutage, powerOutage][i := e'])
     \<and> [waterOutage, powerOutage] ! i = waterOutage
     \<and> oid e' = oid waterOutage \<and> service e' = service waterOutage
     \<and> area e' = area waterOutage \<and> downTime e' = downTime waterOutage
     \<and> upTime e' = upTime waterOutage \<and> durationMinutes e' = durationMinutes waterOutage
     \<and> status e' = status waterOutage \<and> createdAt e' = createdAt waterOutage
     \<and> ReportOutage (\<lambda>s. None) 1700000900000 ''65a1b2c3d4e5f60718293a4d''
         (Some ''Water'') (Some ''Sector 9'') (Some ''yesterday'') [waterOutage, powerOutage] =
       ReportOutage sampleDate 1700000900000 ''65a1b2c3d4e5f60718293a4d''
         (Some ''Water'') (Some ''Sector 9'') (Some ''2023-11-14T22:26:40.000Z'')
         [waterOutage, powerOutage]"
proof -
  have f: "findOngoing ''Water'' ''Sector 9'' [waterOutage, powerOutage] = Some waterOutage"
    by (simp add: findOngoing_def waterOutage_def)
  have d: "distinct (map oid [waterOutage, powerOutage])"
    by (simp add: waterOutage_def powerOutage_def)
  have n: "''Water'' \<noteq> []" "''Sector 9'' \<noteq> []" "''2023-11-14T22:26:40.000Z'' \<noteq> []"
    by simp_all
  have y: "''yesterday'' \<noteq> []" by simp
  from confirmation_frame[where parseDate = sampleDate and now = 1700000900000
      and newId = "''65a1b2c3d4e5f60718293a4d''", OF n f d]
  obtain e' i where
    t: "ReportOutage sampleDate 1700000900000 ''65a1b2c3d4e5f60718293a4d''
       (Some ''Water'') (Some ''Sector 9'') (Some ''2023-11-14T22:26:40.000Z'')
       [waterOutage, powerOutage] =
       (reply 200 (JMessageOutage ''Confirmation added'' e'), [waterOutage, powerOutage][i := e'])
     \<and> i < length [waterOutage, powerOutage] \<and> [waterOutage, powerOutage] ! i = waterOutage
     \<and> e' = waterOutage\<lparr>confirmCount := confirmCount e', confidenceLevel := confidenceLevel e'\<rparr>
     \<and> oid e' = oid waterOutage \<and> service e' = service waterOutage
     \<and> area e' = area waterOutage \<and> downTime e' = downTime waterOutage
     \<and> upTime e' = upTime waterOutage \<and> durationMinutes e' = durationMinutes waterOutage
     \<and> status e' = status waterOutage \<and> createdAt e' = createdAt waterOutage
     \<and> (\<forall>dt' parseDate'. dt' \<noteq> [] \<longrightarrow>
          ReportOutage parseDate' 1700000900000 ''65a1b2c3d4e5f60718293a4d''
            (Some ''Water'') (Some ''Sector 9'') (Some dt') [waterOutage, powerOutage] =
          ReportOutage sampleDate 1700000900000 ''65a1b2c3d4e5f60718293a4d''
            (Some ''Water'') (Some ''Sector 9'') (Some ''2023-11-14T22:26:40.000Z'')
            [waterOutage, powerOutage])"
    by (elim exE)
  from t have "\<forall>dt' parseDate'. dt' \<noteq> [] \<longrightarrow>
          ReportOutage parseDate' 1700000900000 ''65a1b2c3d4e5f60718293a4d''
            (Some ''Water'') (Some ''Sector 9'') (Some dt') [waterOutage, powerOutage] =
          ReportOutage sampleDate 1700000900000 ''65a1b2c3d4e5f60718293a4d''
            (Some ''Water'') (Some ''Sector 9'') (Some ''2023-11-14T22:26:40.000Z'')
            [waterOutage, powerOutage]"
    by (elim conjE)
  from this[rule_format, OF y, of "\<lambda>s. None"] t show ?thesis
    by (intro exI[of _ e'] exI[of _ i]) (elim conjE, intro conjI, assumption+)
qed

section \<open>Restoring and deleting\<close>

lemma RestoreOutage_ongoing:
  assumes "isValidObjectId i" and "findById c i st = Some e" and "status e = ongoing"
  shows "RestoreOutage isValidObjectId c now i st =
           (reply 200 (JOutage (e\<lparr>upTime := Some now,
                durationMinutes := Some (jsDiv (jsSub (of_int now) (of_int (downTime e))) 60000),
                status := resolved\<rparr>)),
            save (e\<lparr>upTime := Some now,
                durationMinutes := Some (jsDiv (jsSub (of_int now) (of_int (downTime e))) 60000),
                status := resolved\<rparr>) st)"
  using assms by (simp add: RestoreOutage_def Let_def dateValue_def)

lemma RestoreOutage_resolved:
  assumes "isValidObjectId i" and "findById c i st = Some e" and "status e = resolved"
  shows "RestoreOutage isValidObjectId c now i st =
           (reply 400 (JMessage ''Already resolved''), st)"
  using assms by (simp add: RestoreOutage_def)

lemma RestoreOutage_200:
  assumes "RestoreOutage isValidObjectId c now i st = (r, st')" and "statusCode r = 200"
  shows "isValidObjectId i \<and> (\<exists>e. findById c i st = Some e \<and> status e = ongoing)"
  using assms
  by (auto simp: RestoreOutage_def reply_def Let_def split: if_splits option.splits)
     (metis outage_status.exhaust)

text \<open>
  The minutes between two timestamps less than \<open>2^53\<close> milliseconds apart: the
  subtraction is exact, so the result is the exact quotient rounded once, within a
  relative error of \<open>2^-53\<close> of it, and equal to it for a whole number of minutes.
\<close>

lemma minutes_rounded_once:
  assumes "\<bar>a - b\<bar> \<le> 2 ^ 53"
  shows "jsDiv (jsSub (of_int a) (of_int b)) 60000 = toDouble (of_int (a - b) / 60000)"
proof -
  have "jsSub (of_int a) (of_int b) = toDouble (of_int (a - b))" by (simp add: jsSub_def)
  also have "\<dots> = of_int (a - b)" using assms by (rule toDouble_int)
  finally show ?thesis by (simp add: jsDiv_def)
qed

lemma minutes_error:
  "\<bar>toDouble (of_int n / 60000) - of_int n / 60000\<bar> * 2 ^ 53 \<le> \<bar>of_int n / 60000 :: rat\<bar>"
proof (cases "n = 0")
  case True
  then show ?thesis by (simp add: toDouble_def)
next
  case False
  then have "1 \<le> \<bar>n\<bar>" by simp
  then have "(1::rat) \<le> \<bar>of_int n\<bar>" by (metis of_int_1 of_int_abs of_int_le_iff)
  then have q: "(1::rat) / 60000 \<le> \<bar>of_int n / 60000\<bar>" by simp
  have "(2::rat) powi (- 1022) \<le> 2 powi (- 16)" by (rule power_int_increasing) simp_all
  also have "\<dots> \<le> 1 / 60000" by simp
  finally have "(2::rat) powi (- 1022) \<le> \<bar>of_int n / 60000\<bar>" using q by simp
  then show ?thesis by (rule toDouble_error)
qed

lemma minutes_whole:
  assumes "\<bar>n\<bar> \<le> 2 ^ 53" and "60000 dvd n"
  shows "toDouble (of_int n / 60000) = of_int n / 60000"
proof -
  from assms(2) obtain m where m: "n = 60000 * m" by (auto simp: dvd_def)
  with assms(1) have "\<bar>m\<bar> \<le> 2 ^ 53" by (simp add: abs_mult)
  then have "toDouble (of_int m) = of_int m" by (rule toDouble_int)
  moreover have "(of_int n :: rat) / 60000 = of_int m" using m by simp
  ultimately show ?thesis by simp
qed

lemma hex_power: "hexObjectId ''65a1b2c3d4e5f60718293a4c''"
  by (simp add: hexObjectId_def)

lemma hex_water: "hexObjectId ''65a1b2c3d4e5f60718293a4b''"
  by (simp add: hexObjectId_def)

lemma minutes_power: "jsDiv (jsSub 1700004200000 1700000600000) 60000 = 60"
  by code_simp

lemma minutes_water:
  "jsDiv (jsSub 1700000100000 1700000000000) 60000 = 7505999378950827 / 4503599627370496"
  by code_simp

lemma restore_power:
  "RestoreOutage hexObjectId lowerHex 1700004200000 ''65a1b2c3d4e5f60718293a4c''
     [waterOutage, powerOutage] =
     (reply 200 (JOutage powerRestored), [waterOutage, powerRestored])"
  by (simp add: RestoreOutage_def hex_power findById_def lowerHex_def waterOutage_def
      powerOutage_def powerRestored_def dateValue_def Let_def minutes_power)

text \<open>An identifier spelled in upper case denotes the same document.\<close>

lemma restore_by_uppercase_id:
  "RestoreOutage hexObjectId lowerHex 1700004200000 ''65A1B2C3D4E5F60718293A4C''
     [waterOutage, powerOutage] =
     (reply 200 (JOutage powerRestored), [waterOutage, powerRestored])"
  by (simp add: RestoreOutage_def hexObjectId_def findById_def lowerHex_def waterOutage_def
      powerOutage_def powerRestored_def dateValue_def Let_def minutes_power)

lemma delete_by_uppercase_id:
  "DeleteOutage (Some ''s3cret'') hexObjectId lowerHex (Some ''s3cret'')
     ''65A1B2C3D4E5F60718293A4C'' [waterOutage, powerOutage] =
     (reply 200 (JMessage ''Deleted''), [waterOutage])"
  by (simp add: DeleteOutage_def hexObjectId_def lowerHex_def waterOutage_def powerOutage_def)

text \<open>
  C4, as the code has it. Restoring an ongoing outage answers 200 with the stored
  document updated in place: \<open>upTime\<close> is the current time, \<open>status\<close> is resolved, and
  \<open>durationMinutes\<close> is \<open>(upTime - downTime) / 60000\<close> as computed on doubles. For
  timestamps less than \<open>2^53\<close> milliseconds apart that is the exact quotient rounded
  once to a double: within a relative error of \<open>2^-53\<close> of it, equal to it when the
  difference is a whole number of minutes, and never rounded to minutes.
\<close>

theorem restore_sets_duration:
  assumes "isValidObjectId i" and "e \<in> set st" and "oid e = castObjectId i"
    and "status e = ongoing" and "distinct (map oid st)"
  shows "\<exists>e' k v. RestoreOutage isValidObjectId castObjectId now i st =
             (reply 200 (JOutage e'), st[k := e'])
           \<and> k < length st \<and> st ! k = e
           \<and> e' = e\<lparr>upTime := Some now, durationMinutes := Some v, status := resolved\<rparr>
           \<and> v = jsDiv (jsSub (of_int now) (of_int (downTime e))) 60000
           \<and> (\<bar>now - downTime e\<bar> \<le> 2 ^ 53 \<longrightarrow>
                v = toDouble (of_int (now - downTime e) / 60000)
                \<and> \<bar>v - of_int (now - downTime e) / 60000\<bar> * 2 ^ 53
                    \<le> \<bar>of_int (now - downTime e) / 60000\<bar>)
           \<and> (\<bar>now - downTime e\<bar> \<le> 2 ^ 53 \<and> 60000 dvd (now - downTime e) \<longrightarrow>
                v = of_int (now - downTime e) / 60000)"
proof -
  let ?v = "jsDiv (jsSub (of_int now) (of_int (downTime e))) 60000"
  let ?e' = "e\<lparr>upTime := Some now, durationMinutes := Some ?v, status := resolved\<rparr>"
  from findById_distinct[where c = castObjectId and i = i, OF assms(5,2,3)]
  have f: "findById castObjectId i st = Some e" .
  then have "find (\<lambda>d. oid d = castObjectId i) st = Some e" by (simp add: findById_def)
  from save_found[OF assms(5) this, of ?e'] obtain k where
    k: "k < length st" "st ! k = e" "save ?e' st = st[k := ?e']" by auto
  have r: "RestoreOutage isValidObjectId castObjectId now i st =
             (reply 200 (JOutage ?e'), st[k := ?e'])"
    using RestoreOutage_ongoing[where isValidObjectId = isValidObjectId and now = now,
        OF assms(1) f assms(4)] k(3) by simp
  have a: "\<bar>now - downTime e\<bar> \<le> 2 ^ 53 \<longrightarrow>
                ?v = toDouble (of_int (now - downTime e) / 60000)
                \<and> \<bar>?v - of_int (now - downTime e) / 60000\<bar> * 2 ^ 53
                    \<le> \<bar>of_int (now - downTime e) / 60000\<bar>"
    using minutes_rounded_once[of now "downTime e"] minutes_error[of "now - downTime e"]
    by simp
  have b: "\<bar>now - downTime e\<bar> \<le> 2 ^ 53 \<and> 60000 dvd (now - downTime e) \<longrightarrow>
                ?v = of_int (now - downTime e) / 60000"
    using minutes_rounded_once[of now "downTime e"] minutes_whole[of "now - downTime e"]
    by simp
  show ?thesis
    apply (rule exI[of _ ?e'], rule exI[of _ k], rule exI[of _ ?v])
    using r k(1,2) a b by blast
qed

theorem restore_sets_duration_witness:
  "\<exists>e' k v. RestoreOutage hexObjectId lowerHex 1700000100000 ''65a1b2c3d4e5f60718293a4b''
               [powerOutage, waterOutage] =
             (reply 200 (JOutage e'), [powerOutage, waterOutage][k := e'])
           \<and> [powerOutage, waterOutage] ! k = waterOutage
           \<and> e' = waterOutage\<lparr>upTime := Some 1700000100000, durationMinutes := Some v,
                    status := resolved\<rparr>
           \<and> v = 7505999378950827 / 4503599627370496
           \<and> \<bar>v - 100000 / 60000\<bar> * 2 ^ 53 \<le> \<bar>100000 / 60000\<bar>"
proof -
  let ?st = "[powerOutage, waterOutage]"
  have m: "waterOutage \<in> set ?st" by simp
  have o: "oid waterOutage = lowerHex ''65a1b2c3d4e5f60718293a4b''"
    by (simp add: waterOutage_def lowerHex_def)
  have s: "status waterOutage = ongoing" by (simp add: waterOutage_def)
  have d: "distinct (map oid ?st)" by (simp add: waterOutage_def powerOutage_def)
  have dt: "downTime waterOutage = 1700000000000" by (simp add: waterOutage_def)
  from restore_sets_duration[where isValidObjectId = hexObjectId and castObjectId = lowerHex
      and now = 1700000100000, OF hex_water m o s d]
  obtain e' k v where
    t: "RestoreOutage hexObjectId lowerHex 1700000100000 ''65a1b2c3d4e5f60718293a4b'' ?st =
             (reply 200 (JOutage e'), ?st[k := e'])"
       "?st ! k = waterOutage"
       "e' = waterOutage\<lparr>upTime := Some 1700000100000, durationMinutes := Some v,
                status := resolved\<rparr>"
       "v = jsDiv (jsSub (of_int 1700000100000) (of_int (downTime waterOutage))) 60000"
       "\<bar>1700000100000 - downTime waterOutage\<bar> \<le> 2 ^ 53 \<longrightarrow>
          v = toDouble (of_int (1700000100000 - downTime waterOutage) / 60000)
          \<and> \<bar>v - of_int (1700000100000 - downTime waterOutage) / 60000\<bar> * 2 ^ 53
              \<le> \<bar>of_int (1700000100000 - downTime waterOutage) / 60000\<bar>"
    by (elim exE conjE)
  from t(4) have v: "v = 7505999378950827 / 4503599627370496"
    by (simp add: dt minutes_water)
  have "\<bar>1700000100000 - downTime waterOutage\<bar> \<le> 2 ^ 53" by (simp add: dt)
  with t(5) have "\<bar>v - of_int (1700000100000 - downTime waterOutage) / 60000\<bar> * 2 ^ 53
              \<le> \<bar>of_int (1700000100000 - downTime waterOutage) / 60000\<bar>" by blast
  then have "\<bar>v - 100000 / 60000\<bar> * 2 ^ 53 \<le> \<bar>100000 / 60000\<bar>" by (simp add: dt)
  with t(1,2,3) v show ?thesis
    by (intro exI[of _ e'] exI[of _ k] exI[of _ v]) (intro conjI, assumption+)
qed

text \<open>
  C4, with the duration read as the exact quotient, fails: an outage restored
  100000 milliseconds after it began is stored with the double next to \<open>5/3\<close>,
  printed 1.6666666666666667, and not with \<open>5/3\<close>.
\<close>

theorem restore_exact_quotient_counterexample:
  "RestoreOutage hexObjectId lowerHex 1700000100000 ''65a1b2c3d4e5f60718293a4b''
     [powerOutage, waterOutage] =
     (reply 200 (JOutage (waterOutage\<lparr>upTime := Some 1700000100000,
        durationMinutes := Some (7505999378950827 / 4503599627370496), status := resolved\<rparr>)),
      [powerOutage, waterOutage\<lparr>upTime := Some 1700000100000,
        durationMinutes := Some (7505999378950827 / 4503599627370496), status := resolved\<rparr>])
   \<and> (7505999378950827 / 4503599627370496 :: rat)
       \<noteq> of_int (1700000100000 - downTime waterOutage) / 60000"
  by (simp add: RestoreOutage_def hex_water findById_def lowerHex_def waterOutage_def
      powerOutage_def dateValue_def Let_def minutes_water)

text \<open>
  C3. After a restore that succeeded, the stored document is resolved and carries
  the \<open>upTime\<close> and \<open>durationMinutes\<close> of that call; a second restore of the same
  identifier, at any later time, is answered 400 "Already resolved" and returns the
  collection as it was, so neither field changes.
\<close>

theorem restore_twice_already_resolved:
  assumes "RestoreOutage isValidObjectId castObjectId now1 i st = (r1, st1)"
    and "statusCode r1 = 200"
  shows "\<exists>e1. body r1 = JOutage e1 \<and> findById castObjectId i st1 = Some e1
           \<and> upTime e1 = Some now1
           \<and> durationMinutes e1 =
               Some (jsDiv (jsSub (of_int now1) (of_int (downTime e1))) 60000)
           \<and> status e1 = resolved
           \<and> RestoreOutage isValidObjectId castObjectId now2 i st1 =
               (reply 400 (JMessage ''Already resolved''), st1)"
proof -
  from RestoreOutage_200[OF assms] obtain e where
    v: "isValidObjectId i" and e: "findById castObjectId i st = Some e" "status e = ongoing"
    by blast
  let ?e' = "e\<lparr>upTime := Some now1,
                durationMinutes := Some (jsDiv (jsSub (of_int now1) (of_int (downTime e))) 60000),
                status := resolved\<rparr>"
  from RestoreOutage_ongoing[where isValidObjectId = isValidObjectId and now = now1, OF v e]
    assms(1)
  have r: "r1 = reply 200 (JOutage ?e')" and s: "st1 = save ?e' st" by simp_all
  have "oid ?e' = castObjectId i" using e(1) by (simp add: findById_oid)
  with e(1) have f: "findById castObjectId i st1 = Some ?e'"
    using findById_save[of castObjectId i st e ?e'] s by simp
  have "RestoreOutage isValidObjectId castObjectId now2 i st1 =
               (reply 400 (JMessage ''Already resolved''), st1)"
    by (rule RestoreOutage_resolved[where isValidObjectId = isValidObjectId, OF v f]) simp
  with r f show ?thesis by (intro exI[of _ ?e']) (simp add: reply_def)
qed

theorem restore_twice_already_resolved_witness:
  "\<exists>e1. body (reply 200 (JOutage powerRestored)) = JOutage e1
      \<and> findById lowerHex ''65a1b2c3d4e5f60718293a4c'' [waterOutage, powerRestored] = Some e1
      \<and> upTime e1 = Some 1700004200000
      \<and> durationMinutes e1 =
          Some (jsDiv (jsSub (of_int 1700004200000) (of_int (downTime e1))) 60000)
      \<and> status e1 = resolved
      \<and> RestoreOutage hexObjectId lowerHex 1700009990000 ''65a1b2c3d4e5f60718293a4c''
           [waterOutage, powerRestored] =
           (reply 400 (JMessage ''Already resolved''), [waterOutage, powerRestored])"
proof -
  have c: "statusCode (reply 200 (JOutage powerRestored)) = 200" by (simp add: reply_def)
  show ?thesis
    by (rule restore_twice_already_resolved[where isValidObjectId = hexObjectId
          and castObjectId = lowerHex, OF restore_power c])
qed

text \<open>
  C5. A delete whose header differs from the configured secret is answered 403
  "Forbidden" and leaves the collection alone, whatever the identifier is:
  malformed, well-formed and unknown, or known. The comparison comes first.
\<close>

theorem delete_wrong_secret_forbidden:
  assumes "header \<noteq> ADMIN_PASSWORD"
  shows "DeleteOutage ADMIN_PASSWORD isValidObjectId castObjectId header i st =
           (reply 403 (JMessage ''Forbidden''), st)"
  using assms by (simp add: DeleteOutage_def)

theorem delete_wrong_secret_forbidden_witness:
  "\<not> hexObjectId ''no-such-id''
   \<and> DeleteOutage (Some ''s3cret'') hexObjectId lowerHex (Some ''guess'') ''no-such-id''
       [waterOutage, powerOutage] = (reply 403 (JMessage ''Forbidden''), [waterOutage, powerOutage])
   \<and> findById lowerHex ''65a1b2c3d4e5f60718293a4f'' [waterOutage, powerOutage] = None
   \<and> DeleteOutage (Some ''s3cret'') hexObjectId lowerHex None ''65a1b2c3d4e5f60718293a4f''
       [waterOutage, powerOutage] = (reply 403 (JMessage ''Forbidden''), [waterOutage, powerOutage])"
proof -
  have a: "Some ''guess'' \<noteq> Some ''s3cret''" by simp
  have b: "None \<noteq> Some ''s3cret''" by simp
  have c: "\<not> hexObjectId ''no-such-id''" by (simp add: hexObjectId_def)
  have d: "findById lowerHex ''65a1b2c3d4e5f60718293a4f'' [waterOutage, powerOutage] = None"
    by (simp add: findById_def lowerHex_def waterOutage_def powerOutage_def)
  from delete_wrong_secret_forbidden[OF a, of hexObjectId lowerHex "''no-such-id''"
         "[waterOutage, powerOutage]"]
       delete_wrong_secret_forbidden[OF b, of hexObjectId lowerHex
         "''65a1b2c3d4e5f60718293a4f''" "[waterOutage, powerOutage]"] c d
  show ?thesis by (intro conjI)
qed

text \<open>
  C8. With the right secret and a well-formed identifier that denotes the \<open>_id\<close> of
  no document, the delete is answered 200 "Deleted" and the collection is unchanged;
  the response is the one every collection gets, so absence does not show.
\<close>

theorem delete_absent_succeeds:
  assumes "header = ADMIN_PASSWORD" and "isValidObjectId i"
    and "\<forall>d \<in> set st. oid d \<noteq> castObjectId i"
  shows "DeleteOutage ADMIN_PASSWORD isValidObjectId castObjectId header i st =
           (reply 200 (JMessage ''Deleted''), st)
         \<and> (\<forall>st'. fst (DeleteOutage ADMIN_PASSWORD isValidObjectId castObjectId header i st') =
                    fst (DeleteOutage ADMIN_PASSWORD isValidObjectId castObjectId header i st))"
proof -
  from assms(3) have "findById castObjectId i st = None" by (simp add: findById_None)
  then have "findByIdAndDelete castObjectId i st = st" by (rule delete_absent)
  with assms(1,2) show ?thesis by (simp add: DeleteOutage_def)
qed

theorem delete_absent_succeeds_witness:
  "DeleteOutage (Some ''s3cret'') hexObjectId lowerHex (Some ''s3cret'')
     ''65A1B2C3D4E5F60718293A4F'' [waterOutage, powerOutage] =
     (reply 200 (JMessage ''Deleted''), [waterOutage, powerOutage])
   \<and> (\<forall>st'. fst (DeleteOutage (Some ''s3cret'') hexObjectId lowerHex (Some ''s3cret'')
                   ''65A1B2C3D4E5F60718293A4F'' st') =
             fst (DeleteOutage (Some ''s3cret'') hexObjectId lowerHex (Some ''s3cret'')
                   ''65A1B2C3D4E5F60718293A4F'' [waterOutage, powerOutage]))"
proof -
  have v: "hexObjectId ''65A1B2C3D4E5F60718293A4F''" by (simp add: hexObjectId_def)
  have d: "\<forall>d \<in> set [waterOutage, powerOutage]. oid d \<noteq> lowerHex ''65A1B2C3D4E5F60718293A4F''"
    by (simp add: lowerHex_def waterOutage_def powerOutage_def)
  show ?thesis
    by (rule delete_absent_succeeds[where isValidObjectId = hexObjectId
          and castObjectId = lowerHex, OF refl v d])
qed

text \<open>
  C9. With no secret configured, a delete that sends no header is not answered 403:
  for a well-formed identifier it is answered 200 "Deleted" and the document with
  that identifier, if any, is removed. The answer is 403 exactly when header and
  configured value differ.
\<close>

theorem delete_unconfigured_secret:
  "fst (DeleteOutage None isValidObjectId castObjectId None i st)
     \<noteq> reply 403 (JMessage ''Forbidden'')
   \<and> (isValidObjectId i \<longrightarrow>
        DeleteOutage None isValidObjectId castObjectId None i st =
          (reply 200 (JMessage ''Deleted''), findByIdAndDelete castObjectId i st))
   \<and> (\<forall>e. isValidObjectId i \<and> findById castObjectId i st = Some e \<longrightarrow>
        snd (DeleteOutage None isValidObjectId castObjectId None i st) = remove1 e st)
   \<and> (\<forall>ADMIN_PASSWORD header.
        fst (DeleteOutage ADMIN_PASSWORD isValidObjectId castObjectId header i st) =
          reply 403 (JMessage ''Forbidden'') \<longleftrightarrow> header \<noteq> ADMIN_PASSWORD)"
  by (auto simp: DeleteOutage_def reply_def delete_present)

theorem delete_unconfigured_secret_witness:
  "DeleteOutage None hexObjectId lowerHex None ''65a1b2c3d4e5f60718293a4c''
     [waterOutage, powerOutage] =
     (reply 200 (JMessage ''Deleted''), [waterOutage])"
proof -
  have f: "findById lowerHex ''65a1b2c3d4e5f60718293a4c'' [waterOutage, powerOutage] =
             Some powerOutage"
    by (simp add: findById_def lowerHex_def waterOutage_def powerOutage_def)
  have ne: "powerOutage \<noteq> waterOutage" by (simp add: waterOutage_def powerOutage_def)
  from delete_unconfigured_secret[of hexObjectId lowerHex "''65a1b2c3d4e5f60718293a4c''"
         "[waterOutage, powerOutage]"]
  have a: "DeleteOutage None hexObjectId lowerHex None ''65a1b2c3d4e5f60718293a4c''
             [waterOutage, powerOutage] =
             (reply 200 (JMessage ''Deleted''),
              findByIdAndDelete lowerHex ''65a1b2c3d4e5f60718293a4c'' [waterOutage, powerOutage])"
    and b: "snd (DeleteOutage None hexObjectId lowerHex None ''65a1b2c3d4e5f60718293a4c''
             [waterOutage, powerOutage]) = remove1 powerOutage [waterOutage, powerOutage]"
    using hex_power f by blast+
  from a b ne show ?thesis by simp
qed

section \<open>Statistics\<close>

lemma orZero_simps [simp]: "orZero None = 0" "orZero (Some v) = v"
  by (simp_all add: orZero_def)

lemma map_of_setKey: "map_of (setKey k v m) = (map_of m)(k \<mapsto> v)"
  by (induction m) (auto simp: fun_eq_iff)

lemma statsStep_pair:
  "statsStep (t, m) d =
     (jsAdd t (toNumber (durationMinutes d)),
      setKey (service d)
        (jsAdd (orZero (map_of m (service d))) (toNumber (durationMinutes d))) m)"
  by (simp add: statsStep_def)

lemma statsStep_total:
  "fst (foldl statsStep (t, m) ds) =
     foldl jsAdd t (map (\<lambda>d. toNumber (durationMinutes d)) ds)"
  by (induction ds arbitrary: t m) (simp_all add: statsStep_pair)

lemma statsStep_services:
  "map_of (snd (foldl statsStep (t, m) ds)) svc =
     (if svc \<in> service ` set ds
      then Some (foldl jsAdd (orZero (map_of m svc))
                   (map (\<lambda>d. toNumber (durationMinutes d))
                      (filter (\<lambda>d. service d = svc) ds)))
      else map_of m svc)"
proof (induction ds arbitrary: t m)
  case Nil
  then show ?case by simp
next
  case (Cons d ds)
  have absent: "svc \<notin> service ` set ds \<Longrightarrow> filter (\<lambda>d. service d = svc) ds = []"
    by (auto simp: filter_empty_conv)
  show ?case
    by (auto simp: statsStep_pair Cons.IH map_of_setKey absent)
qed

lemma reliabilityStep_apply:
  "map_of tot svc = Some v \<Longrightarrow>
     reliabilityStep tot r svc = setKey svc (max 0 (jsSub 100 (jsMul (jsDiv v 60) 2))) r"
  by (simp add: reliabilityStep_def)

lemma reliabilityStep_scores:
  "set ks \<subseteq> dom (map_of tot) \<Longrightarrow>
     map_of (foldl (reliabilityStep tot) r ks) svc =
       (if svc \<in> set ks
        then map_option (\<lambda>v. max 0 (jsSub 100 (jsMul (jsDiv v 60) 2))) (map_of tot svc)
        else map_of r svc)"
proof (induction ks arbitrary: r)
  case Nil
  then show ?case by simp
next
  case (Cons k ks)
  from Cons.prems obtain v where v: "map_of tot k = Some v" by auto
  from Cons.prems have "set ks \<subseteq> dom (map_of tot)" by simp
  from Cons.IH[OF this] v show ?case
    by (simp add: reliabilityStep_apply[OF v] map_of_setKey)
qed

text \<open>
  Whole numbers add up exactly while the sum stays within \<open>2^53\<close>.
\<close>

lemma sum_list_whole_nonneg:
  "list_all (\<lambda>x. \<exists>n. 0 \<le> n \<and> x = rat_of_int n) xs \<Longrightarrow> 0 \<le> sum_list xs"
  by (induction xs) auto

lemma foldl_jsAdd_whole:
  assumes "list_all (\<lambda>x. \<exists>n. 0 \<le> n \<and> x = rat_of_int n) xs" and "0 \<le> k"
    and "of_int k + sum_list xs \<le> 2 ^ 53"
  shows "foldl jsAdd (of_int k) xs = of_int k + sum_list xs"
  using assms
proof (induction xs arbitrary: k)
  case Nil
  then show ?case by simp
next
  case (Cons x xs)
  from Cons.prems(1) obtain n where n: "0 \<le> n" "x = of_int n"
    and rest: "list_all (\<lambda>x. \<exists>n. 0 \<le> n \<and> x = rat_of_int n) xs" by auto
  from sum_list_whole_nonneg[OF rest] Cons.prems(3) n
  have "rat_of_int (k + n) \<le> 2 ^ 53" by simp
  then have "k + n \<le> 2 ^ 53"
    by (metis of_int_le_iff of_int_numeral of_int_power)
  with Cons.prems(2) n(1) have "\<bar>k + n\<bar> \<le> 2 ^ 53" by simp
  then have "toDouble (of_int (k + n)) = of_int (k + n)" by (rule toDouble_int)
  then have s: "jsAdd (of_int k) x = of_int (k + n)" by (simp add: jsAdd_def n(2))
  have "foldl jsAdd (of_int (k + n)) xs = of_int (k + n) + sum_list xs"
    using rest Cons.prems(2,3) n by (intro Cons.IH) simp_all
  with s n(2) show ?case by simp
qed

lemma minutesTotal_whole:
  assumes "wholeMinutes ds"
    and "sum_list (map (\<lambda>d. toNumber (durationMinutes d)) ds) \<le> 2 ^ 53"
  shows "minutesTotal ds = sum_list (map (\<lambda>d. toNumber (durationMinutes d)) ds)"
proof -
  from assms(1)
  have "list_all (\<lambda>x. \<exists>n. 0 \<le> n \<and> x = rat_of_int n)
          (map (\<lambda>d. toNumber (durationMinutes d)) ds)"
    by (simp add: wholeMinutes_def list_all_iff)
  from foldl_jsAdd_whole[OF this, of 0] assms(2) show ?thesis
    by (simp add: minutesTotal_def)
qed

lemma wholeMinutes_filter: "wholeMinutes ds \<Longrightarrow> wholeMinutes (filter P ds)"
  by (simp add: wholeMinutes_def list_all_iff)

lemma sum_filter_le:
  "wholeMinutes ds \<Longrightarrow>
     sum_list (map (\<lambda>d. toNumber (durationMinutes d)) (filter P ds))
       \<le> sum_list (map (\<lambda>d. toNumber (durationMinutes d)) ds)"
  by (induction ds) (auto simp: wholeMinutes_def)

lemma minutesOf_whole:
  assumes "wholeMinutes ds"
    and "sum_list (map (\<lambda>d. toNumber (durationMinutes d)) ds) \<le> 2 ^ 53"
  shows "minutesOf svc ds =
           sum_list (map (\<lambda>d. toNumber (durationMinutes d)) (filter (\<lambda>d. service d = svc) ds))"
  unfolding minutesOf_def
  using sum_filter_le[OF assms(1), of "\<lambda>d. service d = svc"] assms(2)
  by (intro minutesTotal_whole wholeMinutes_filter[OF assms(1)]) simp

text \<open>
  C6, as the code has it. With no resolved outage the statistics are the empty
  object, answered 200. Otherwise \<open>totalDowntimeMinutes\<close> is the durations of the
  resolved outages added up as doubles in the order of the collection,
  \<open>averageDowntimeMinutes\<close> is that total divided by their number,
  \<open>serviceWiseDowntime\<close> has exactly the services that occur, each with its own
  durations added up the same way, and \<open>reliabilityScores\<close> gives each of them
  \<open>max(0, 100 - (minutes / 60) * 2)\<close>, every operation rounded to a double. Where the
  durations are whole minutes, none negative, with a sum within \<open>2^53\<close>, the totals
  are the exact sums. A null duration counts as 0, as in the code's additions; a
  restore never leaves one on a resolved outage.
\<close>

theorem stats_totals_and_scores:
  assumes "rs = filter (\<lambda>d. status d = resolved) st"
  shows "(rs = [] \<longrightarrow> ComputeStats st = reply 200 JEmpty)
       \<and> (rs \<noteq> [] \<longrightarrow>
            (\<exists>s. ComputeStats st = reply 200 (JStats s)
               \<and> totalDowntimeMinutes s = minutesTotal rs
               \<and> averageDowntimeMinutes s = jsDiv (minutesTotal rs) (of_nat (length rs))
               \<and> (\<forall>svc. map_of (serviceWiseDowntime s) svc =
                     (if svc \<in> service ` set rs then Some (minutesOf svc rs) else None))
               \<and> (\<forall>svc. map_of (reliabilityScores s) svc =
                     (if svc \<in> service ` set rs
                      then Some (max 0 (jsSub 100 (jsMul (jsDiv (minutesOf svc rs) 60) 2)))
                      else None))))
       \<and> (wholeMinutes rs
            \<and> sum_list (map (\<lambda>d. toNumber (durationMinutes d)) rs) \<le> 2 ^ 53 \<longrightarrow>
            minutesTotal rs = sum_list (map (\<lambda>d. toNumber (durationMinutes d)) rs)
            \<and> (\<forall>svc. minutesOf svc rs =
                  sum_list (map (\<lambda>d. toNumber (durationMinutes d))
                              (filter (\<lambda>d. service d = svc) rs))))"
proof (intro conjI impI)
  assume "rs = []"
  with assms show "ComputeStats st = reply 200 JEmpty" by (simp add: ComputeStats_def)
next
  assume ne: "rs \<noteq> []"
  obtain t m where f: "foldl statsStep (0, []) rs = (t, m)" by (cases "foldl statsStep (0, []) rs")
  have t: "t = minutesTotal rs"
    using statsStep_total[of 0 "[]" rs] f by (simp add: minutesTotal_def)
  have m: "map_of m svc = (if svc \<in> service ` set rs then Some (minutesOf svc rs) else None)" for svc
    using statsStep_services[of 0 "[]" rs svc] f by (simp add: minutesOf_def minutesTotal_def)
  have k: "set (map fst m) = service ` set rs"
  proof -
    have "set (map fst m) = dom (map_of m)" by (simp add: dom_map_of_conv_image_fst)
    also have "\<dots> = service ` set rs" using m by (auto simp: dom_def split: if_splits)
    finally show ?thesis .
  qed
  let ?s = "\<lparr>totalDowntimeMinutes = t, averageDowntimeMinutes = jsDiv t (of_nat (length rs)),
             serviceWiseDowntime = m,
             reliabilityScores = foldl (reliabilityStep m) [] (map fst m)\<rparr>"
  have c: "ComputeStats st = reply 200 (JStats ?s)"
    using assms ne f by (simp add: ComputeStats_def Let_def)
  have r: "map_of (reliabilityScores ?s) svc =
            (if svc \<in> service ` set rs
             then Some (max 0 (jsSub 100 (jsMul (jsDiv (minutesOf svc rs) 60) 2))) else None)" for svc
    using reliabilityStep_scores[of "map fst m" m "[]" svc] k m[of svc]
    by (simp add: dom_map_of_conv_image_fst)
  show "\<exists>s. ComputeStats st = reply 200 (JStats s)
               \<and> totalDowntimeMinutes s = minutesTotal rs
               \<and> averageDowntimeMinutes s = jsDiv (minutesTotal rs) (of_nat (length rs))
               \<and> (\<forall>svc. map_of (serviceWiseDowntime s) svc =
                     (if svc \<in> service ` set rs then Some (minutesOf svc rs) else None))
               \<and> (\<forall>svc. map_of (reliabilityScores s) svc =
                     (if svc \<in> service ` set rs
                      then Some (max 0 (jsSub 100 (jsMul (jsDiv (minutesOf svc rs) 60) 2)))
                      else None))"
    apply (rule exI[of _ ?s])
    using c t m r by simp
next
  assume w: "wholeMinutes rs
            \<and> sum_list (map (\<lambda>d. toNumber (durationMinutes d)) rs) \<le> 2 ^ 53"
  then show "minutesTotal rs = sum_list (map (\<lambda>d. toNumber (durationMinutes d)) rs)"
    by (simp add: minutesTotal_whole)
next
  assume w: "wholeMinutes rs
            \<and> sum_list (map (\<lambda>d. toNumber (durationMinutes d)) rs) \<le> 2 ^ 53"
  then show "\<forall>svc. minutesOf svc rs =
                  sum_list (map (\<lambda>d. toNumber (durationMinutes d))
                              (filter (\<lambda>d. service d = svc) rs))"
    by (simp add: minutesOf_whole)
qed

lemma average_sample: "jsDiv 180 2 = 90"
  by code_simp

lemma score_sample: "max 0 (jsSub 100 (jsMul (jsDiv 180 60) 2)) = 94"
  by code_simp

lemma score_long:
  "max 0 (jsSub 100 (jsMul (jsDiv 100 60) 2)) = 6802311937174187 / 70368744177664"
  by code_simp

lemma add_long: "jsAdd 0 100 = 100"
  by code_simp

lemma average_long: "jsDiv 100 1 = 100"
  by code_simp

theorem stats_totals_and_scores_witness:
  "ComputeStats [waterOutage, powerOutage] = reply 200 JEmpty
   \<and> (\<exists>s. ComputeStats [waterFirst, powerOutage, waterSecond] = reply 200 (JStats s)
         \<and> totalDowntimeMinutes s = 180
         \<and> averageDowntimeMinutes s = 90
         \<and> map_of (serviceWiseDowntime s) ''Water'' = Some 180
         \<and> map_of (reliabilityScores s) ''Water'' = Some 94
         \<and> map_of (reliabilityScores s) ''Electricity'' = None)"
proof -
  let ?rs = "[waterFirst, waterSecond]"
  have a: "[] = filter (\<lambda>d. status d = resolved) [waterOutage, powerOutage]"
    by (simp add: waterOutage_def powerOutage_def)
  have b: "?rs = filter (\<lambda>d. status d = resolved) [waterFirst, powerOutage, waterSecond]"
    by (simp add: waterFirst_def waterSecond_def powerOutage_def)
  have e: "ComputeStats [waterOutage, powerOutage] = reply 200 JEmpty"
    using stats_totals_and_scores[OF a] by simp
  have w: "wholeMinutes ?rs"
  proof -
    have "(60::rat) = of_int 60" "(120::rat) = of_int 120" by simp_all
    then show ?thesis
      unfolding wholeMinutes_def
      by (simp add: waterFirst_def waterSecond_def toNumber_def)
  qed
  have sm: "sum_list (map (\<lambda>d. toNumber (durationMinutes d)) ?rs) = 180"
    by (simp add: waterFirst_def waterSecond_def toNumber_def)
  have fl: "filter (\<lambda>d. service d = ''Water'') ?rs = ?rs"
    by (simp add: waterFirst_def waterSecond_def)
  have v: "service ` set ?rs = {''Water''}"
    by (simp add: waterFirst_def waterSecond_def)
  from stats_totals_and_scores[OF b] obtain s where
    s: "ComputeStats [waterFirst, powerOutage, waterSecond] = reply 200 (JStats s)"
       "totalDowntimeMinutes s = minutesTotal ?rs"
       "averageDowntimeMinutes s = jsDiv (minutesTotal ?rs) (of_nat (length ?rs))"
       "\<forall>svc. map_of (serviceWiseDowntime s) svc =
          (if svc \<in> service ` set ?rs then Some (minutesOf svc ?rs) else None)"
       "\<forall>svc. map_of (reliabilityScores s) svc =
          (if svc \<in> service ` set ?rs
           then Some (max 0 (jsSub 100 (jsMul (jsDiv (minutesOf svc ?rs) 60) 2))) else None)"
    by blast
  have le: "sum_list (map (\<lambda>d. toNumber (durationMinutes d)) ?rs) \<le> 2 ^ 53"
    unfolding sm by simp
  from stats_totals_and_scores[OF b] w le
  have ex: "minutesTotal ?rs = sum_list (map (\<lambda>d. toNumber (durationMinutes d)) ?rs)
            \<and> (\<forall>svc. minutesOf svc ?rs =
                  sum_list (map (\<lambda>d. toNumber (durationMinutes d))
                              (filter (\<lambda>d. service d = svc) ?rs)))"
    by blast
  from ex sm have x: "minutesTotal ?rs = 180" by simp
  from ex have "minutesOf ''Water'' ?rs =
      sum_list (map (\<lambda>d. toNumber (durationMinutes d))
                  (filter (\<lambda>d. service d = ''Water'') ?rs))" by blast
  with fl sm have y: "minutesOf ''Water'' ?rs = 180" by simp
  have t: "totalDowntimeMinutes s = 180" using s(2) x by simp
  have "averageDowntimeMinutes s = 90" using s(3) x by (simp add: average_sample)
  moreover have "map_of (serviceWiseDowntime s) ''Water'' = Some 180"
    using s(4) y v by simp
  moreover have "map_of (reliabilityScores s) ''Water'' = Some 94"
    using s(5) y v by (simp add: score_sample)
  moreover have "map_of (reliabilityScores s) ''Electricity'' = None"
    using s(5) v by simp
  ultimately show ?thesis using e s(1) t by blast
qed

text \<open>
  C6, with the scores read as exact numbers, fails: one resolved outage of 100
  minutes gets the score printed 96.66666666666667, a double, and not \<open>290/3\<close>.
\<close>

theorem stats_exact_score_counterexample:
  "ComputeStats [waterOutage, longOutage] =
     reply 200 (JStats \<lparr>totalDowntimeMinutes = 100, averageDowntimeMinutes = 100,
       serviceWiseDowntime = [(''Internet'', 100)],
       reliabilityScores = [(''Internet'', 6802311937174187 / 70368744177664)]\<rparr>)
   \<and> (6802311937174187 / 70368744177664 :: rat) \<noteq> max 0 (100 - (100 / 60) * 2)"
  by (simp add: ComputeStats_def statsStep_def reliabilityStep_def waterOutage_def
      longOutage_def toNumber_def Let_def add_long average_long score_long)

section \<open>Insights\<close>

lemma map_of_setIndex: "map_of (setIndex k v m) = (map_of m)(k \<mapsto> v)"
  by (induction m) (auto simp: fun_eq_iff)

lemma keys_setIndex: "set (map fst (setIndex k v m)) = insert k (set (map fst m))"
proof -
  have "set (map fst (setIndex k v m)) = dom (map_of (setIndex k v m))"
    by (simp add: dom_map_of_conv_image_fst)
  also have "\<dots> = insert k (dom (map_of m))" by (simp add: map_of_setIndex)
  also have "\<dots> = insert k (set (map fst m))" by (simp add: dom_map_of_conv_image_fst)
  finally show ?thesis .
qed

lemma sorted_setIndex:
  "sorted_wrt (<) (map fst m) \<Longrightarrow> sorted_wrt (<) (map fst (setIndex k v m))"
proof (induction m)
  case Nil
  then show ?case by simp
next
  case (Cons p ps)
  obtain a b where p: "p = (a, b)" by (cases p)
  from Cons.prems p have s: "sorted_wrt (<) (map fst ps)" and lt: "\<forall>x \<in> set (map fst ps). a < x"
    by auto
  show ?case
  proof (cases "k < a")
    case True
    with Cons.prems p show ?thesis by auto
  next
    case False
    show ?thesis
    proof (cases "k = a")
      case True
      with Cons.prems p show ?thesis by auto
    next
      case ne: False
      with False have "a < k" by simp
      with lt have "\<forall>x \<in> set (map fst (setIndex k v ps)). a < x"
        unfolding keys_setIndex by simp
      with Cons.IH[OF s] False ne p show ?thesis by simp
    qed
  qed
qed

lemma setIndex_nonempty: "setIndex k v m \<noteq> []"
  by (cases m) (auto split: if_splits)

lemma insightsStep_triple:
  "insightsStep gh gd (hm, dm, am) d =
     (setIndex (gh (downTime d)) (orZero (map_of hm (gh (downTime d))) + 1) hm,
      setIndex (gd (downTime d)) (orZero (map_of dm (gd (downTime d))) + 1) dm,
      setKey (area d) (orZero (map_of am (area d)) + 1) am)"
  by (simp add: insightsStep_def Let_def)

lemma hourCount_Cons:
  "hourCount gh (d # ds) h = (if gh (downTime d) = h then Suc (hourCount gh ds h) else hourCount gh ds h)"
  by (simp add: hourCount_def)

lemma insights_hours_sorted:
  "sorted_wrt (<) (map fst hm) \<Longrightarrow>
     sorted_wrt (<) (map fst (fst (foldl (insightsStep gh gd) (hm, dm, am) ds)))"
  by (induction ds arbitrary: hm dm am) (simp_all add: insightsStep_triple sorted_setIndex)

lemma insights_hours_count:
  "map_of (fst (foldl (insightsStep gh gd) (hm, dm, am) ds)) h =
     (if hourCount gh ds h = 0 then map_of hm h
      else Some (orZero (map_of hm h) + hourCount gh ds h))"
proof (induction ds arbitrary: hm dm am)
  case Nil
  then show ?case by (simp add: hourCount_def)
next
  case (Cons d ds)
  show ?case
    by (simp add: insightsStep_triple Cons.IH map_of_setIndex hourCount_Cons)
qed

lemma insights_days_nonempty:
  "dm \<noteq> [] \<Longrightarrow> fst (snd (foldl (insightsStep gh gd) (hm, dm, am) ds)) \<noteq> []"
  by (induction ds arbitrary: hm dm am) (simp_all add: insightsStep_triple setIndex_nonempty)

lemma reduce_last_max:
  fixes c :: "nat \<Rightarrow> nat option"
  assumes "sorted_wrt (<) (a # ks)" and "\<forall>k \<in> set (a # ks). c k = Some (n k)"
  shows "foldl (\<lambda>a b. if numGreater (c a) (c b) then a else b) a ks \<in> set (a # ks)
       \<and> (\<forall>k \<in> set (a # ks).
             n k \<le> n (foldl (\<lambda>a b. if numGreater (c a) (c b) then a else b) a ks))
       \<and> (\<forall>k \<in> set (a # ks).
             n k = n (foldl (\<lambda>a b. if numGreater (c a) (c b) then a else b) a ks)
             \<longrightarrow> k \<le> foldl (\<lambda>a b. if numGreater (c a) (c b) then a else b) a ks)"
  using assms
proof (induction ks rule: rev_induct)
  case Nil
  then show ?case by simp
next
  case (snoc x xs)
  let ?r = "foldl (\<lambda>a b. if numGreater (c a) (c b) then a else b) a xs"
  from snoc.prems(1) have s: "sorted_wrt (<) (a # xs)" and big: "\<forall>k \<in> set (a # xs). k < x"
    by (auto simp: sorted_wrt_append)
  from snoc.prems(2) have cs: "\<forall>k \<in> set (a # xs). c k = Some (n k)" and cx: "c x = Some (n x)"
    by auto
  from snoc.IH[OF s cs] have r: "?r \<in> set (a # xs)"
    and mx: "\<forall>k \<in> set (a # xs). n k \<le> n ?r"
    and tie: "\<forall>k \<in> set (a # xs). n k = n ?r \<longrightarrow> k \<le> ?r" by blast+
  from r cs have cr: "c ?r = Some (n ?r)" by blast
  show ?case
  proof (cases "n ?r > n x")
    case True
    then have "foldl (\<lambda>a b. if numGreater (c a) (c b) then a else b) a (xs @ [x]) = ?r"
      using cr cx by (simp add: numGreater_def)
    with r mx tie True show ?thesis by auto
  next
    case False
    then have e: "foldl (\<lambda>a b. if numGreater (c a) (c b) then a else b) a (xs @ [x]) = x"
      using cr cx by (simp add: numGreater_def)
    from False mx have "\<forall>k \<in> set (a # xs). n k \<le> n x" by fastforce
    with big show ?thesis unfolding e by (auto intro: less_imp_le)
  qed
qed


lemma hourCount_pos: "hourCount gh ds h \<noteq> 0 \<Longrightarrow> h \<in> (\<lambda>d. gh (downTime d)) ` set ds"
proof -
  assume "hourCount gh ds h \<noteq> 0"
  then have "filter (\<lambda>d. gh (downTime d) = h) ds \<noteq> []" by (simp add: hourCount_def)
  then obtain d where "d \<in> set ds" "gh (downTime d) = h"
    by (auto simp: filter_empty_conv)
  then show ?thesis by auto
qed

text \<open>
  C7, as the code has it. On a non-empty collection the insights are answered 200 and
  \<open>peakOutageHour\<close> is the hour of some outage's \<open>downTime\<close> whose number of outages
  no other hour exceeds; among the hours that reach that number it is the last one
  the enumeration of \<open>hourMap\<close> meets, which for its integer keys is the largest hour.
\<close>

theorem peak_hour_last_maximal:
  assumes "st \<noteq> []"
  shows "\<exists>ins. ComputeInsights gh gd st = reply 200 (JInsights ins)
           \<and> peakOutageHour ins \<in> (\<lambda>d. gh (downTime d)) ` set st
           \<and> (\<forall>h. hourCount gh st h \<le> hourCount gh st (peakOutageHour ins))
           \<and> (\<forall>h. hourCount gh st h = hourCount gh st (peakOutageHour ins)
                  \<longrightarrow> h \<le> peakOutageHour ins)"
proof -
  obtain hm dm am where f: "foldl (insightsStep gh gd) ([], [], []) st = (hm, dm, am)"
    by (cases "foldl (insightsStep gh gd) ([], [], []) st") auto
  have srt: "sorted_wrt (<) (map fst hm)"
    using insights_hours_sorted[of "[]" gh gd "[]" "[]" st] f by simp
  have cnt: "map_of hm h = (if hourCount gh st h = 0 then None else Some (hourCount gh st h))" for h
    using insights_hours_count[of gh gd "[]" "[]" "[]" st h] f by simp
  from assms obtain d ds where st: "st = d # ds" by (cases st) auto
  have "map_of hm (gh (downTime d)) \<noteq> None"
    unfolding cnt by (simp add: st hourCount_Cons)
  then have "hm \<noteq> []" by auto
  then obtain a ks where keys: "map fst hm = a # ks" by (cases hm) auto
  have "dm \<noteq> []"
  proof -
    have "fst (snd (foldl (insightsStep gh gd)
            (insightsStep gh gd ([], [], []) d) ds)) \<noteq> []"
      unfolding insightsStep_triple by (rule insights_days_nonempty) (rule setIndex_nonempty)
    with f show ?thesis by (simp add: st)
  qed
  then obtain w where w: "maxKey dm = Some w" by (cases dm) (auto simp: maxKey_def)
  let ?p = "foldl (\<lambda>a b. if numGreater (map_of hm a) (map_of hm b) then a else b) a ks"
  have p: "maxKey hm = Some ?p" by (simp add: maxKey_def keys)
  have inkeys: "map_of hm k = Some (hourCount gh st k)" if "k \<in> set (a # ks)" for k
  proof -
    from that keys have "k \<in> fst ` set hm" by (metis set_map)
    then have "map_of hm k \<noteq> None" by (simp add: map_of_eq_None_iff)
    then show ?thesis unfolding cnt by (auto split: if_splits)
  qed
  from srt keys have s': "sorted_wrt (<) (a # ks)" by simp
  from reduce_last_max[OF s', of "map_of hm" "hourCount gh st"] inkeys
  have mem: "?p \<in> set (a # ks)"
    and mx: "\<forall>k \<in> set (a # ks). hourCount gh st k \<le> hourCount gh st ?p"
    and tie: "\<forall>k \<in> set (a # ks). hourCount gh st k = hourCount gh st ?p \<longrightarrow> k \<le> ?p"
    by blast+
  have key_iff: "k \<in> set (a # ks) \<longleftrightarrow> hourCount gh st k \<noteq> 0" for k
  proof -
    have "k \<in> set (a # ks) \<longleftrightarrow> k \<in> fst ` set hm" using keys by (metis set_map)
    also have "\<dots> \<longleftrightarrow> map_of hm k \<noteq> None" by (simp add: map_of_eq_None_iff)
    also have "\<dots> \<longleftrightarrow> hourCount gh st k \<noteq> 0" unfolding cnt by simp
    finally show ?thesis .
  qed
  from mem have ppos: "hourCount gh st ?p \<noteq> 0" using key_iff by blast
  let ?ins = "\<lparr>peakOutageHour = ?p, worstDayOfWeek = w, recurringAreas = am\<rparr>"
  have c: "ComputeInsights gh gd st = reply 200 (JInsights ?ins)"
    using assms f p w by (simp add: ComputeInsights_def)
  have i1: "?p \<in> (\<lambda>d. gh (downTime d)) ` set st" using ppos by (rule hourCount_pos)
  have i2: "hourCount gh st h \<le> hourCount gh st ?p" for h
  proof (cases "hourCount gh st h = 0")
    case True
    then show ?thesis by simp
  next
    case False
    then have "h \<in> set (a # ks)" using key_iff by blast
    with mx show ?thesis by blast
  qed
  have i3: "h \<le> ?p" if "hourCount gh st h = hourCount gh st ?p" for h
  proof -
    from that ppos have "hourCount gh st h \<noteq> 0" by simp
    then have "h \<in> set (a # ks)" using key_iff by blast
    with tie that show ?thesis by blast
  qed
  show ?thesis
    apply (rule exI[of _ ?ins])
    using c i1 i2 i3 by simp
qed

theorem peak_hour_last_maximal_witness:
  "\<exists>ins. ComputeInsights utcHours utcDay [dawnOutage, morningOutage, waterOutage] =
            reply 200 (JInsights ins)
       \<and> peakOutageHour ins \<in>
            (\<lambda>d. utcHours (downTime d)) ` set [dawnOutage, morningOutage, waterOutage]
       \<and> (\<forall>h. hourCount utcHours [dawnOutage, morningOutage, waterOutage] h
               \<le> hourCount utcHours [dawnOutage, morningOutage, waterOutage] (peakOutageHour ins))
       \<and> (\<forall>h. hourCount utcHours [dawnOutage, morningOutage, waterOutage] h =
               hourCount utcHours [dawnOutage, morningOutage, waterOutage] (peakOutageHour ins)
               \<longrightarrow> h \<le> peakOutageHour ins)"
  by (rule peak_hour_last_maximal) simp

text \<open>
  C7, with the tie-break read as "first maximal", fails: two outages, at 03:00 and at 05:00, give
  \<open>hourMap\<close> the keys 3 and 5 with one outage each. The first key of the highest
  count is 3; \<open>1 > 1\<close> is false, so the reduction moves on and the handler answers 5.
\<close>

theorem peak_hour_first_maximal_counterexample:
  "fst (foldl (insightsStep utcHours utcDay) ([], [], []) [dawnOutage, morningOutage]) =
     [(3, 1), (5, 1)]
   \<and> firstMaxKey [(3::nat, 1::nat), (5, 1)] = Some 3
   \<and> ComputeInsights utcHours utcDay [dawnOutage, morningOutage] =
       reply 200 (JInsights \<lparr>peakOutageHour = 5, worstDayOfWeek = 3,
         recurringAreas = [(''Sector 2'', 1), (''Sector 7'', 1)]\<rparr>)"
  by (simp add: ComputeInsights_def insightsStep_def dawnOutage_def morningOutage_def
      utcHours_def utcDay_def orZero_def maxKey_def numGreater_def firstMaxKey_def Let_def)

end
